theory Spec2Isabelle
  imports Main "HOL-Library.Char_ord" "HOL-Library.List_Lexorder" "HOL-Library.Product_Lexorder"
begin

section \<open>Process wiring: \<^verbatim>\<open>cmd/config.go\<close>\<close>

subsection \<open>Errors, contexts, log records\<close>

text \<open>
  A Go \<^verbatim>\<open>error\<close> is either made by \<^verbatim>\<open>fmt.Errorf\<close> with a plain message, or wraps
  another error with \<^verbatim>\<open>%w\<close>. A nil error is \<open>None\<close> of \<open>error option\<close>; a function
  returning \<^verbatim>\<open>(T, error)\<close> returns \<open>error + T\<close>.
\<close>

datatype error = Errorf string | Wrapf string error

type_synonym duration = int

text \<open>
  The contexts the file builds: \<^verbatim>\<open>context.Background()\<close>, \<^verbatim>\<open>context.WithCancel\<close>,
  \<^verbatim>\<open>context.WithTimeout\<close>. \<open>Caller\<close> is whatever context the caller of a setup
  function hands in.
\<close>

datatype ctx = Background | Caller nat | WithCancel ctx | WithTimeout ctx duration

fun ctx_timeout :: "ctx \<Rightarrow> duration option" where
  "ctx_timeout (WithTimeout parent d) = Some d"
| "ctx_timeout c = None"

text \<open>
  Cancellation by time (\<^verbatim>\<open>context\<close>, library): a context made by
  \<^verbatim>\<open>WithTimeout(parent, d)\<close> is done once \<open>d\<close> has elapsed since it was made, and
  no later than its parent, which was made before it. \<open>done_after c t\<close> says that
  \<open>c\<close> is done for certain when \<open>t\<close> has elapsed since \<open>c\<close> was made; nothing is
  known of the caller's context, and the background context is never done.
\<close>

fun done_after :: "ctx \<Rightarrow> duration \<Rightarrow> bool" where
  "done_after (WithTimeout parent d) t = (d \<le> t \<or> done_after parent t)"
| "done_after (WithCancel parent) t = done_after parent t"
| "done_after Background t = False"
| "done_after (Caller n) t = False"

datatype level = Debug | Info | Warn

record log_entry =
  lvl :: level
  msg :: string
  err_attr :: "error option"

definition log_msg :: "level \<Rightarrow> string \<Rightarrow> log_entry" where
  "log_msg l m = \<lparr>lvl = l, msg = m, err_attr = None\<rparr>"

definition log_err :: "level \<Rightarrow> string \<Rightarrow> error \<Rightarrow> log_entry" where
  "log_err l m e = \<lparr>lvl = l, msg = m, err_attr = Some e\<rparr>"

subsection \<open>\<^verbatim>\<open>strings.ToUpper\<close>\<close>

text \<open>
  A Go string is a sequence of bytes. \<^verbatim>\<open>strings.ToUpper\<close> (standard library) has two
  paths: a string of ASCII bytes only has each of \<^verbatim>\<open>'a'..'z'\<close> lowered by 32; any other
  string is mapped rune by rune through the Unicode tables, which stay a parameter
  \<open>uni\<close> here.
\<close>

definition is_ascii :: "string \<Rightarrow> bool" where
  "is_ascii s = list_all (\<lambda>c. (of_char c :: nat) < 128) s"

definition upper_byte :: "char \<Rightarrow> char" where
  "upper_byte c =
     (if (97::nat) \<le> of_char c \<and> of_char c \<le> (122::nat)
      then char_of (of_char c - (32::nat)) else c)"

definition ToUpper :: "(string \<Rightarrow> string) \<Rightarrow> string \<Rightarrow> string" where
  "ToUpper uni s = (if is_ascii s then map upper_byte s else uni s)"

text \<open>
  Equality up to the case of the letters, said without \<^verbatim>\<open>ToUpper\<close>: a byte is a
  case variant of a byte of a name in capitals when it is that byte, or the byte is a
  capital letter \<^verbatim>\<open>'A'..'Z'\<close> and it is the small letter, 32 above.
\<close>

definition case_variant :: "char \<Rightarrow> char \<Rightarrow> bool" where
  "case_variant a b =
     (a = b \<or> ((65::nat) \<le> of_char b \<and> of_char b \<le> (90::nat)
               \<and> (of_char a :: nat) = of_char b + 32))"

definition equal_up_to_case :: "string \<Rightarrow> string \<Rightarrow> bool" where
  "equal_up_to_case s name = list_all2 case_variant s name"

subsection \<open>\<^verbatim>\<open>setupBucket\<close>\<close>

record bucketOpts =
  storage :: string
  prefix :: string
  filesystemDirectory :: string
  s3Bucket :: string
  s3Endpoint :: string
  s3AccessKey :: string
  s3SecretKey :: string
  s3Insecure :: bool
  retries :: int

text \<open>
  The provider constants of the object-storage library (\<^verbatim>\<open>objstore.FILESYSTEM\<close>,
  \<^verbatim>\<open>objstore.S3\<close>): the provider's name in capitals.
\<close>

definition FILESYSTEM :: string where
  "FILESYSTEM = ''FILESYSTEM''"

definition S3 :: string where
  "S3 = ''S3''"

text \<open>The two anonymous structs assigned to \<^verbatim>\<open>subCfg\<close>, with their fields in order.\<close>

datatype subCfg =
  FilesystemCfg string
| S3Cfg string string string string int bool

record BucketConfig =
  cfg_Type :: string
  cfg_Prefix :: string
  cfg_Config :: subCfg

text \<open>
  \<^verbatim>\<open>yaml.Marshal\<close> and \<^verbatim>\<open>client.NewBucket\<close> are library calls: parameters \<open>marshal\<close>
  and \<open>newBucket\<close>. The switch on \<open>prov\<close> keeps the source's case order.
\<close>

definition setupBucket ::
  "(string \<Rightarrow> string) \<Rightarrow> (BucketConfig \<Rightarrow> error + 'bytes) \<Rightarrow> ('bytes \<Rightarrow> error + 'bkt) \<Rightarrow>
   bucketOpts \<Rightarrow> error + 'bkt" where
  "setupBucket uni marshal newBucket opts =
     (let prov = ToUpper uni (storage opts) in
      case (if prov = FILESYSTEM then Some (FilesystemCfg (filesystemDirectory opts))
            else if prov = S3 then
              Some (S3Cfg (s3Bucket opts) (s3Endpoint opts) (s3AccessKey opts)
                      (s3SecretKey opts) (retries opts) (s3Insecure opts))
            else None) of
        None \<Rightarrow> Inl (Errorf (''unknown bucket type: '' @ prov))
      | Some sub \<Rightarrow>
          (case marshal \<lparr>cfg_Type = prov, cfg_Prefix = prefix opts, cfg_Config = sub\<rparr> of
             Inl err \<Rightarrow> Inl (Wrapf ''unable to marshal bucket config yaml: '' err)
           | Inr bytes \<Rightarrow>
               (case newBucket bytes of
                  Inl err \<Rightarrow> Inl (Wrapf ''unable to create bucket client: '' err)
                | Inr bkt \<Rightarrow> Inr bkt)))"

subsection \<open>\<^verbatim>\<open>setupInternalAPI\<close>: the health and readiness handlers\<close>

text \<open>
  An \<^verbatim>\<open>http.ResponseWriter\<close> collects a status code and a body. \<^verbatim>\<open>WriteHeader\<close> sets
  the status once (a later call is ignored by \<^verbatim>\<open>net/http\<close>); a write with no status
  yet sends 200 first.
\<close>

record response =
  status :: "nat option"
  body :: string

record request =
  req_method :: string
  req_path :: string
  req_body :: string

definition new_response :: response where
  "new_response = \<lparr>status = None, body = []\<rparr>"

definition StatusOK :: nat where
  "StatusOK = 200"

definition WriteHeader :: "nat \<Rightarrow> response \<Rightarrow> response" where
  "WriteHeader code w = (case status w of None \<Rightarrow> w\<lparr>status := Some code\<rparr> | Some c \<Rightarrow> w)"

definition Fprintf :: "string \<Rightarrow> response \<Rightarrow> response" where
  "Fprintf s w =
     (case status w of
        None \<Rightarrow> w\<lparr>status := Some StatusOK, body := body w @ s\<rparr>
      | Some c \<Rightarrow> w\<lparr>body := body w @ s\<rparr>)"

type_synonym handler = "request \<Rightarrow> response \<Rightarrow> response"

definition healthy_handler :: handler where
  "healthy_handler r w = Fprintf ''OK'' (WriteHeader StatusOK w)"

definition ready_handler :: handler where
  "ready_handler r w = Fprintf ''OK'' (WriteHeader StatusOK w)"

text \<open>
  The routes registered on the mux, in the order of the source. The profiling and
  metrics handlers are library handlers (parameters). The patterns of the two endpoints
  have no trailing slash, so each matches its own path only.
\<close>

definition internal_mux :: "handler \<Rightarrow> handler \<Rightarrow> (string \<times> handler) list" where
  "internal_mux pprof metrics =
     [(''/debug/pprof/'', pprof),
      (''/debug/pprof/profile'', pprof),
      (''/debug/pprof/symbol'', pprof),
      (''/debug/pprof/trace'', pprof),
      (''/metrics'', metrics),
      (''/-/healthy'', healthy_handler),
      (''/-/ready'', ready_handler)]"

definition serve_exact :: "(string \<times> handler) list \<Rightarrow> request \<Rightarrow> response option" where
  "serve_exact mux r = map_option (\<lambda>h. h r new_response) (map_of mux (req_path r))"

subsection \<open>The periodic loops\<close>

text \<open>
  What the setup functions act on: the logger's output, the component they drive (its
  state \<open>comp\<close> belongs to the \<^verbatim>\<open>locate\<close> package and is opaque here) and, as a
  record of what happened, the contexts handed to the component's operation, one per
  call, in order.
\<close>

record 's world =
  logs :: "log_entry list"
  calls :: "ctx list"
  comp :: 's

definition emit :: "log_entry \<Rightarrow> 's world \<Rightarrow> 's world" where
  "emit e w = w\<lparr>logs := logs w @ [e]\<rparr>"

text \<open>
  A call of a component's operation (\<^verbatim>\<open>Discover\<close>, \<^verbatim>\<open>Update\<close>, \<^verbatim>\<open>Sync\<close>) under a
  context: the operation is a parameter that may fail or succeed as it likes.
\<close>

definition invoke ::
  "(ctx \<Rightarrow> 's \<Rightarrow> error option \<times> 's) \<Rightarrow> ctx \<Rightarrow> 's world \<Rightarrow> error option \<times> 's world" where
  "invoke operation c w =
     (case operation c (comp w) of
        (e, s') \<Rightarrow> (e, w\<lparr>calls := calls w @ [c], comp := s'\<rparr>))"

text \<open>
  An actor of the \<^verbatim>\<open>run.Group\<close>: its execute function is
  \<^verbatim>\<open>runutil.Repeat(period, stop_ctx.Done(), work)\<close>, its interrupt function logs and
  cancels \<open>stop_ctx\<close>.
\<close>

record 's actor =
  period :: duration
  stop_ctx :: ctx
  work :: "'s world \<Rightarrow> error option \<times> 's world"
  interrupt :: "'s world \<Rightarrow> 's world"

text \<open>
  \<^verbatim>\<open>runutil.Repeat(interval, stopc, f)\<close> (library). It begins with
  \<^verbatim>\<open>time.NewTicker(interval)\<close>, which panics when the interval is not positive: then
  \<open>f\<close> is never run. Otherwise its loop runs \<open>f\<close> at once; returns its error if it
  has one; else waits for the stop channel (return nil) or the next tick (go round
  again). The environment's choices are the list of signals; when the list ends the
  loop is left waiting in its \<^verbatim>\<open>select\<close>.
\<close>

datatype signal = Tick | Stop

datatype outcome = Waiting | Returned "error option" | Panicked

fun Repeat_loop ::
  "('w \<Rightarrow> error option \<times> 'w) \<Rightarrow> signal list \<Rightarrow> 'w \<Rightarrow> outcome \<times> 'w" where
  "Repeat_loop f [] w =
     (case f w of
        (Some err, w') \<Rightarrow> (Returned (Some err), w')
      | (None, w') \<Rightarrow> (Waiting, w'))"
| "Repeat_loop f (s # sigs) w =
     (case f w of
        (Some err, w') \<Rightarrow> (Returned (Some err), w')
      | (None, w') \<Rightarrow>
          (case s of
             Stop \<Rightarrow> (Returned None, w')
           | Tick \<Rightarrow> Repeat_loop f sigs w'))"

definition Repeat ::
  "duration \<Rightarrow> ('w \<Rightarrow> error option \<times> 'w) \<Rightarrow> signal list \<Rightarrow> 'w \<Rightarrow> outcome \<times> 'w" where
  "Repeat interval f sigs w =
     (if interval \<le> 0 then (Panicked, w) else Repeat_loop f sigs w)"

definition execute :: "'s actor \<Rightarrow> signal list \<Rightarrow> 's world \<Rightarrow> outcome \<times> 's world" where
  "execute a sigs w = Repeat (period a) (work a) sigs w"

subsubsection \<open>\<^verbatim>\<open>setupDiscovery\<close>\<close>

record discoveryOpts =
  discoveryInterval :: duration
  discoveryConcurrency :: int

definition discovery_work ::
  "(ctx \<Rightarrow> 's \<Rightarrow> error option \<times> 's) \<Rightarrow> ctx \<Rightarrow> discoveryOpts \<Rightarrow> 's world \<Rightarrow>
   error option \<times> 's world" where
  "discovery_work Discover ctx' opts w =
     (let w1 = emit (log_msg Debug ''Running discovery'') w;
          iterCtx = WithTimeout ctx' (discoveryInterval opts)
      in case invoke Discover iterCtx w1 of
           (Some err, w2) \<Rightarrow> (None, emit (log_err Warn ''Unable to discover new blocks'' err) w2)
         | (None, w2) \<Rightarrow> (None, w2))"

definition setupDiscovery ::
  "(ctx \<Rightarrow> 's \<Rightarrow> error option \<times> 's) \<Rightarrow> ctx \<Rightarrow> 's actor list \<Rightarrow> 's world \<Rightarrow> discoveryOpts \<Rightarrow>
   (error + unit) \<times> 's actor list \<times> 's world" where
  "setupDiscovery Discover ctx0 g w opts =
     (let w1 = emit (log_msg Info ''Running initial discovery'') w;
          iterCtx = WithTimeout ctx0 (discoveryInterval opts)
      in case invoke Discover iterCtx w1 of
           (Some err, w2) \<Rightarrow> (Inl (Wrapf ''unable to run initial discovery: '' err), g, w2)
         | (None, w2) \<Rightarrow>
             (let ctx' = WithCancel Background
              in (Inr (),
                  g @ [\<lparr>period = discoveryInterval opts, stop_ctx = ctx',
                        work = discovery_work Discover ctx' opts,
                        interrupt = emit (log_msg Info ''Stopping discovery'')\<rparr>],
                  w2)))"

subsubsection \<open>\<^verbatim>\<open>setupTSDBDiscovery\<close>\<close>

record tsdbDiscoveryOpts =
  tsdb_discoveryInterval :: duration
  tsdb_discoveryConcurrency :: int
  tsdb_discoveryMinBlockAge :: duration
  externalLabelMatchers :: "string list"

definition tsdb_discovery_work ::
  "(ctx \<Rightarrow> 's \<Rightarrow> error option \<times> 's) \<Rightarrow> ctx \<Rightarrow> tsdbDiscoveryOpts \<Rightarrow> 's world \<Rightarrow>
   error option \<times> 's world" where
  "tsdb_discovery_work Discover ctx' opts w =
     (let w1 = emit (log_msg Debug ''Running tsdb discovery'') w;
          iterCtx = WithTimeout ctx' (tsdb_discoveryInterval opts)
      in case invoke Discover iterCtx w1 of
           (Some err, w2) \<Rightarrow>
             (None, emit (log_err Warn ''Unable to discover new tsdb blocks'' err) w2)
         | (None, w2) \<Rightarrow> (None, w2))"

definition setupTSDBDiscovery ::
  "(ctx \<Rightarrow> 's \<Rightarrow> error option \<times> 's) \<Rightarrow> ctx \<Rightarrow> 's actor list \<Rightarrow> 's world \<Rightarrow>
   tsdbDiscoveryOpts \<Rightarrow> (error + unit) \<times> 's actor list \<times> 's world" where
  "setupTSDBDiscovery Discover ctx0 g w opts =
     (let w1 = emit (log_msg Info ''Running initial tsdb discovery'') w;
          iterCtx = WithTimeout ctx0 (tsdb_discoveryInterval opts)
      in case invoke Discover iterCtx w1 of
           (Some err, w2) \<Rightarrow> (Inl (Wrapf ''unable to run initial discovery: '' err), g, w2)
         | (None, w2) \<Rightarrow>
             (let ctx' = WithCancel Background
              in (Inr (),
                  g @ [\<lparr>period = tsdb_discoveryInterval opts, stop_ctx = ctx',
                        work = tsdb_discovery_work Discover ctx' opts,
                        interrupt = emit (log_msg Info ''Stopping tsdb discovery'')\<rparr>],
                  w2)))"

subsubsection \<open>\<^verbatim>\<open>setupMetaFilter\<close>\<close>

record syncerOpts =
  syncerInterval :: duration
  syncerConcurrency :: int
  syncerReadBufferSize :: int
  syncerLabelFilesDir :: string
  filterType :: string
  filterThanosBackfillEndpoint :: string
  filterThanosBackfillUpdateInterval :: duration
  filterThanosBackfillOverlap :: duration

text \<open>
  The two values a \<^verbatim>\<open>locate.MetaFilter\<close> can be here: the package's accept-all filter,
  and a backfill filter built from an endpoint and an overlap.
\<close>

datatype MetaFilter =
  AllMetasMetaFilter
| ThanosBackfillMetaFilter string duration

definition meta_filter_work ::
  "(ctx \<Rightarrow> 's \<Rightarrow> error option \<times> 's) \<Rightarrow> ctx \<Rightarrow> syncerOpts \<Rightarrow> 's world \<Rightarrow>
   error option \<times> 's world" where
  "meta_filter_work Update ctx' opts w =
     (let w1 = emit (log_msg Debug ''Updating thanos-backfill meta filter'') w;
          iterCtx = WithTimeout ctx' (filterThanosBackfillUpdateInterval opts)
      in case invoke Update iterCtx w1 of
           (Some err, w2) \<Rightarrow>
             (None, emit (log_err Warn ''Unable to update thanos-backfill meta filter'' err) w2)
         | (None, w2) \<Rightarrow> (None, w2))"

definition setupMetaFilter ::
  "(ctx \<Rightarrow> 's \<Rightarrow> error option \<times> 's) \<Rightarrow> ctx \<Rightarrow> 's actor list \<Rightarrow> 's world \<Rightarrow> syncerOpts \<Rightarrow>
   (error + MetaFilter) \<times> 's actor list \<times> 's world" where
  "setupMetaFilter Update ctx0 g w opts =
     (if filterType opts = ''all-metas'' then (Inr AllMetasMetaFilter, g, w)
      else if filterType opts = ''thanos-backfill'' then
        (let thanosBackfillMetaFilter =
               ThanosBackfillMetaFilter (filterThanosBackfillEndpoint opts)
                 (filterThanosBackfillOverlap opts);
             w1 = emit (log_msg Info ''Initializing thanos-backfill meta filter'') w;
             iterCtx = WithTimeout ctx0 (filterThanosBackfillUpdateInterval opts)
         in case invoke Update iterCtx w1 of
              (Some err, w2) \<Rightarrow>
                (Inl (Wrapf ''unable to initialize thanos-backfill meta filter: '' err), g, w2)
            | (None, w2) \<Rightarrow>
                (let ctx' = WithCancel Background
                 in (Inr thanosBackfillMetaFilter,
                     g @ [\<lparr>period = filterThanosBackfillUpdateInterval opts, stop_ctx = ctx',
                           work = meta_filter_work Update ctx' opts,
                           interrupt =
                             emit (log_msg Info ''Stopping thanos-backfill meta filter updates'')\<rparr>],
                     w2)))
      else (Inl (Errorf (''unknown meta filter type: '' @ filterType opts)), g, w))"

subsubsection \<open>\<^verbatim>\<open>setupSyncer\<close>\<close>

text \<open>
  \<^verbatim>\<open>syncer.Sync(iterCtx, discoverer.Metas())\<close>: the snapshot is read from the component
  state at the moment of the call.
\<close>

definition sync_call ::
  "(ctx \<Rightarrow> 'm \<Rightarrow> 's \<Rightarrow> error option \<times> 's) \<Rightarrow> ('s \<Rightarrow> 'm) \<Rightarrow> ctx \<Rightarrow> 's \<Rightarrow> error option \<times> 's" where
  "sync_call Sync Metas c s = Sync c (Metas s) s"

definition syncer_work ::
  "(ctx \<Rightarrow> 'm \<Rightarrow> 's \<Rightarrow> error option \<times> 's) \<Rightarrow> ('s \<Rightarrow> 'm) \<Rightarrow> ctx \<Rightarrow> syncerOpts \<Rightarrow> 's world \<Rightarrow>
   error option \<times> 's world" where
  "syncer_work Sync Metas ctx' opts w =
     (let w1 = emit (log_msg Debug ''Running sync'') w;
          iterCtx = WithTimeout ctx' (syncerInterval opts)
      in case invoke (sync_call Sync Metas) iterCtx w1 of
           (Some err, w2) \<Rightarrow> (None, emit (log_err Warn ''Unable to sync new blocks'' err) w2)
         | (None, w2) \<Rightarrow> (None, w2))"

definition setupSyncer ::
  "(ctx \<Rightarrow> 'm \<Rightarrow> 's \<Rightarrow> error option \<times> 's) \<Rightarrow> ('s \<Rightarrow> 'm) \<Rightarrow> ctx \<Rightarrow> 's actor list \<Rightarrow> 's world \<Rightarrow>
   syncerOpts \<Rightarrow> (error + unit) \<times> 's actor list \<times> 's world" where
  "setupSyncer Sync Metas ctx0 g w opts =
     (let w1 = emit (log_msg Info ''Running initial sync'') w;
          iterCtx = WithTimeout ctx0 (syncerInterval opts)
      in case invoke (sync_call Sync Metas) iterCtx w1 of
           (Some err, w2) \<Rightarrow> (Inl (Wrapf ''unable to run initial sync: '' err), g, w2)
         | (None, w2) \<Rightarrow>
             (let ctx' = WithCancel Background
              in (Inr (),
                  g @ [\<lparr>period = syncerInterval opts, stop_ctx = ctx',
                        work = syncer_work Sync Metas ctx' opts,
                        interrupt = emit (log_msg Info ''Stopping syncer'')\<rparr>],
                  w2)))"

text \<open>The actor a setup function has just added to the group: the last one.\<close>

definition loop_actor :: "'r \<times> 's actor list \<times> 's world \<Rightarrow> 's actor" where
  "loop_actor res = last (fst (snd res))"

section \<open>Block conversion and the catalog\<close>

text \<open>
  Of the conversion only the test (\<^verbatim>\<open>convert/convert_test.go\<close>) is at hand; the
  converter, the discoverer and the meta filters are modelled from the design text, the
  test's input and checks from the test.
\<close>

subsection \<open>Data model\<close>

text \<open>
  Modelled from the spec: the source block interface (the converter's source is
  missing). A source block gives its time range and its series, each with "their labels
  and compressed sample chunks"; a block may be "malformed/unreadable".
\<close>

type_synonym label = "string \<times> string"

record chunk =
  chunk_mint :: int
  chunk_maxt :: int
  chunk_data :: string

record series =
  lbls :: "label list"
  chunks :: "chunk list"

record source_block =
  blk_mint :: int
  blk_maxt :: int
  blk_readable :: bool
  blk_series :: "series list"

text \<open>
  Modelled from the spec: the Meta record (the \<^verbatim>\<open>schema\<close> package is missing):
  "a name derived from the block's time range (day granularity)", for which the day
  stands here, "minimum/maximum sample timestamp, number of shards".
\<close>

datatype block_name = BlockNameForDay int

record Meta =
  meta_name :: block_name
  meta_mint :: int
  meta_maxt :: int
  meta_shards :: nat

text \<open>
  Modelled from the spec: the two files of a shard (the writer's source is missing).
  A cell of a label column is a byte string or null. A label file has, per row group,
  the label-index column (one reference per row, never null) and one column per label
  name of the schema, cut into pages. A chunk file has, per row group and row, the
  chunks of the row's series.
\<close>

type_synonym cell = "string option"

type_synonym page = "cell list"

record label_row_group =
  lrg_index :: "nat list"
  lrg_columns :: "(string \<times> page list) list"

record label_file =
  lf_schema :: "string list"
  lf_row_groups :: "label_row_group list"

record chunk_file =
  cf_row_groups :: "chunk list list list"

text \<open>
  Modelled from the spec: the object store (a collaborator, outside this repository's
  sources), as far as blocks go: the Meta records by block name, the label and
  chunk files by block name and shard index (the file names are derived from these two).
\<close>

record bucket =
  bkt_available :: bool
  bkt_metas :: "(block_name \<times> Meta) list"
  bkt_labels :: "((block_name \<times> nat) \<times> label_file) list"
  bkt_chunks :: "((block_name \<times> nat) \<times> chunk_file) list"

definition empty_bucket :: bucket where
  "empty_bucket = \<lparr>bkt_available = True, bkt_metas = [], bkt_labels = [], bkt_chunks = []\<rparr>"

definition put :: "'k \<Rightarrow> 'v \<Rightarrow> ('k \<times> 'v) list \<Rightarrow> ('k \<times> 'v) list" where
  "put k v kvs = (k, v) # filter (\<lambda>kv. fst kv \<noteq> k) kvs"

text \<open>
  Modelled from the spec: the converter's configuration (the converter's source is
  missing): "sort key (ordered list of label names, metric name first by convention),
  target row-group row count, target shard count, and a page-buffer byte threshold for
  label columns".
\<close>

record convert_opts =
  sortBy :: "string list"
  rowGroupSize :: nat
  shardCount :: nat
  labelPageBufferSize :: nat

subsection \<open>The converter\<close>

text \<open>
  Modelled from the spec: the converter's step 1 (the converter's source is missing).
  "Enumerate all series across the given source blocks whose data falls within the day;
  deduplicate by identical label set, merging their chunks." A day is given by its
  first millisecond; a chunk falls within it when its time range meets the day's.
\<close>

definition day_ms :: int where
  "day_ms = 86400000"

definition chunks_in_day :: "int \<Rightarrow> series \<Rightarrow> chunk list" where
  "chunks_in_day d s =
     filter (\<lambda>c. chunk_mint c < d + day_ms \<and> d \<le> chunk_maxt c) (chunks s)"

fun insert_series :: "series \<Rightarrow> series list \<Rightarrow> series list" where
  "insert_series s [] = [s]"
| "insert_series s (t # ts) =
     (if lbls t = lbls s then t\<lparr>chunks := chunks t @ chunks s\<rparr> # ts
      else t # insert_series s ts)"

definition dedupe :: "series list \<Rightarrow> series list" where
  "dedupe ss = foldl (\<lambda>acc s. insert_series s acc) [] ss"

definition enumerate_series :: "int \<Rightarrow> source_block list \<Rightarrow> series list" where
  "enumerate_series d blocks =
     dedupe (map (\<lambda>s. s\<lparr>chunks := chunks_in_day d s\<rparr>)
               (filter (\<lambda>s. chunks_in_day d s \<noteq> []) (concat (map blk_series blocks))))"

text \<open>
  Modelled from the spec: the converter's step 3 (and the order step 2 refers to).
  "Sort rows by the configured sort key; ties broken by a stable secondary key (series
  label set lexicographic order)." A series without a label of the sort key sorts as if
  the value were empty.
\<close>

definition label_value :: "label list \<Rightarrow> string \<Rightarrow> string" where
  "label_value ls k = (case map_of ls k of None \<Rightarrow> [] | Some v \<Rightarrow> v)"

definition row_key :: "string list \<Rightarrow> series \<Rightarrow> string list \<times> label list" where
  "row_key ks s = (map (label_value (lbls s)) ks, lbls s)"

definition sort_rows :: "string list \<Rightarrow> series list \<Rightarrow> series list" where
  "sort_rows ks rows = sort_key (row_key ks) rows"

text \<open>
  Modelled from the spec: the converter's step 2. "Partition series into Shards
  nearly-equal-sized buckets deterministically", here by contiguous ranges after the
  sort: the first \<open>n mod Shards\<close> shards hold one row more than the others.
\<close>

fun take_ranges :: "nat list \<Rightarrow> 'a list \<Rightarrow> 'a list list" where
  "take_ranges [] xs = []"
| "take_ranges (k # ks) xs = take k xs # take_ranges ks (drop k xs)"

definition shard_sizes :: "nat \<Rightarrow> nat \<Rightarrow> nat list" where
  "shard_sizes n k = map (\<lambda>i. n div k + (if i < n mod k then 1 else 0)) [0..<k]"

definition partition_shards :: "nat \<Rightarrow> 'a list \<Rightarrow> 'a list list" where
  "partition_shards k xs = take_ranges (shard_sizes (length xs) k) xs"

text \<open>
  Modelled from the spec: the converter's steps 4 and 5. Row groups are runs of at most
  \<open>rowGroupSize\<close> rows (a size of 0 is read as no cap). A label column is cut into
  pages: "when a column's buffered byte size exceeds the label-page-buffer threshold,
  flush a page boundary". The chunk file is written "with identical row ordering and
  row-group boundaries as the label file".
\<close>

function row_groups_of :: "nat \<Rightarrow> 'a list \<Rightarrow> 'a list list" where
  "row_groups_of n xs =
     (if xs = [] then []
      else if n = 0 then [xs]
      else take n xs # row_groups_of n (drop n xs))"
  by pat_completeness auto
termination
  by (relation "measure (\<lambda>(n, xs). length xs)") auto

declare row_groups_of.simps [simp del]

definition cell_size :: "cell \<Rightarrow> nat" where
  "cell_size c = (case c of None \<Rightarrow> 0 | Some v \<Rightarrow> length v)"

definition buffered_bytes :: "cell list \<Rightarrow> nat" where
  "buffered_bytes buf = sum_list (map cell_size buf)"

fun paginate :: "nat \<Rightarrow> cell list \<Rightarrow> cell list \<Rightarrow> page list" where
  "paginate thr buf [] = (if buf = [] then [] else [buf])"
| "paginate thr buf (v # vs) =
     (if thr < buffered_bytes (buf @ [v]) then (buf @ [v]) # paginate thr [] vs
      else paginate thr (buf @ [v]) vs)"

definition label_names :: "series list \<Rightarrow> string list" where
  "label_names rows = sort (remdups (concat (map (\<lambda>s. map fst (lbls s)) rows)))"

definition write_label_row_group ::
  "nat \<Rightarrow> string list \<Rightarrow> (nat \<times> series) list \<Rightarrow> label_row_group" where
  "write_label_row_group thr names rg =
     \<lparr>lrg_index = map fst rg,
      lrg_columns =
        map (\<lambda>c. (c, paginate thr [] (map (\<lambda>r. map_of (lbls (snd r)) c) rg))) names\<rparr>"

definition write_label_file :: "convert_opts \<Rightarrow> series list \<Rightarrow> label_file" where
  "write_label_file opts rows =
     \<lparr>lf_schema = label_names rows,
      lf_row_groups =
        map (write_label_row_group (labelPageBufferSize opts) (label_names rows))
          (row_groups_of (rowGroupSize opts) (zip [0..<length rows] rows))\<rparr>"

definition write_chunk_file :: "convert_opts \<Rightarrow> series list \<Rightarrow> chunk_file" where
  "write_chunk_file opts rows =
     \<lparr>cf_row_groups = row_groups_of (rowGroupSize opts) (map chunks rows)\<rparr>"

text \<open>
  Modelled from the spec: the converter's contract and its step 6. The shards of a
  block are written one after the other, and "the Meta record [is written] last".
  An unreadable source block or a failing object store is "fatal for that conversion
  invocation (no partial Meta published)". The Meta carries the least and greatest
  sample time of the rows (the day's start when there are none).
\<close>

fun write_shards ::
  "convert_opts \<Rightarrow> block_name \<Rightarrow> nat \<Rightarrow> series list list \<Rightarrow> bucket \<Rightarrow> bucket" where
  "write_shards opts name i [] bkt = bkt"
| "write_shards opts name i (rows # rest) bkt =
     write_shards opts name (Suc i) rest
       (bkt\<lparr>bkt_labels :=
               put (name, i) (write_label_file opts (sort_rows (sortBy opts) rows))
                 (bkt_labels bkt),
            bkt_chunks :=
               put (name, i) (write_chunk_file opts (sort_rows (sortBy opts) rows))
                 (bkt_chunks bkt)\<rparr>)"

definition least_time :: "int \<Rightarrow> int list \<Rightarrow> int" where
  "least_time d ts = (case ts of [] \<Rightarrow> d | t # rest \<Rightarrow> fold min rest t)"

definition greatest_time :: "int \<Rightarrow> int list \<Rightarrow> int" where
  "greatest_time d ts = (case ts of [] \<Rightarrow> d | t # rest \<Rightarrow> fold max rest t)"

definition ConvertTSDBBlock ::
  "bucket \<Rightarrow> int \<Rightarrow> source_block list \<Rightarrow> convert_opts \<Rightarrow> error + bucket" where
  "ConvertTSDBBlock bkt d blocks opts =
     (if \<not> list_all blk_readable blocks then Inl (Errorf ''unable to read source block'')
      else if \<not> bkt_available bkt then Inl (Errorf ''unable to write to object storage'')
      else
        (let rows = sort_rows (sortBy opts) (enumerate_series d blocks);
             name = BlockNameForDay d;
             written = write_shards opts name 0 (partition_shards (shardCount opts) rows) bkt;
             meta = \<lparr>meta_name = name,
                     meta_mint = least_time d (map chunk_mint (concat (map chunks rows))),
                     meta_maxt = greatest_time d (map chunk_maxt (concat (map chunks rows))),
                     meta_shards = shardCount opts\<rparr>
         in Inr (written\<lparr>bkt_metas := put name meta (bkt_metas written)\<rparr>)))"

subsection \<open>The discoverer's snapshot and the meta filters\<close>

text \<open>
  Modelled from the spec: the discoverer's \<^verbatim>\<open>Metas()\<close> (the \<^verbatim>\<open>locate\<close> package is
  missing). The snapshot is "an immutable mapping from block name to Meta" of the
  materialized blocks in the object store.
\<close>

definition Discoverer_Metas :: "bucket \<Rightarrow> (block_name \<times> Meta) list" where
  "Discoverer_Metas bkt = bkt_metas bkt"

text \<open>
  Modelled from the spec: the \<^verbatim>\<open>Filter\<close> operation of the two meta filters (the
  \<^verbatim>\<open>locate\<close> package is missing). "Accept-all: identity function; no external state;
  never fails." For the backfill filter "a candidate Meta is eligible only if its maximum
  timestamp precedes that pointer by at least a configured overlap margin"; the pointer
  is the filter's state.
\<close>

definition filterMetas ::
  "MetaFilter \<Rightarrow> int \<Rightarrow> (block_name \<times> Meta) list \<Rightarrow> (block_name \<times> Meta) list" where
  "filterMetas f pointer ms =
     (case f of
        AllMetasMetaFilter \<Rightarrow> ms
      | ThanosBackfillMetaFilter endpoint overlap \<Rightarrow>
          filter (\<lambda>m. meta_maxt (snd m) + overlap \<le> pointer) ms)"

subsection \<open>The test: input and checks\<close>

text \<open>
  \<^verbatim>\<open>fmt.Sprintf("%d", n)\<close> for a number that is not negative, and
  \<^verbatim>\<open>labels.FromStrings\<close> (library), which orders the labels by name.
\<close>

definition digit :: "nat \<Rightarrow> char" where
  "digit n = char_of (48 + n)"

function itoa :: "nat \<Rightarrow> string" where
  "itoa n = (if n < 10 then [digit n] else itoa (n div 10) @ [digit (n mod 10)])"
  by pat_completeness auto
termination
  by (relation "measure (\<lambda>n. n)") auto

declare itoa.simps [simp del]

definition FromStrings :: "label list \<Rightarrow> label list" where
  "FromStrings ls = sort_key fst ls"

text \<open>
  The series the test appends for \<open>i\<close> (lines 41 to 52): the same sample, at one
  second, 120 times over, so one chunk at 1000 ms. The head block holds the thousand of
  them; the day is the one of its least time, which starts at 0.
\<close>

definition test_labels :: "nat \<Rightarrow> label list" where
  "test_labels i =
     FromStrings [(''__name__'', ''foo_'' @ itoa (i div 10)),
                  (''col_'' @ itoa (i div 100), itoa (2 * i))]"

definition test_series :: "nat \<Rightarrow> series" where
  "test_series i =
     \<lparr>lbls = test_labels i,
      chunks = [\<lparr>chunk_mint = 1000, chunk_maxt = 1000, chunk_data = itoa i\<rparr>]\<rparr>"

definition test_head :: source_block where
  "test_head =
     \<lparr>blk_mint = 1000, blk_maxt = 1000, blk_readable = True,
      blk_series = map test_series [0..<1000]\<rparr>"

text \<open>
  The options of the test (lines 60 to 65), as the design text reads them: sort by the
  metric name, row groups of 250 rows, 2 shards, a label page buffer of 1 KiB.
\<close>

definition test_opts :: convert_opts where
  "test_opts =
     \<lparr>sortBy = [''__name__''], rowGroupSize = 250, shardCount = 2,
      labelPageBufferSize = 1024\<rparr>"

text \<open>\<^verbatim>\<open>NumRows\<close> of a file: the rows of its row groups.\<close>

definition lf_NumRows :: "label_file \<Rightarrow> nat" where
  "lf_NumRows lf = sum_list (map (\<lambda>rg. length (lrg_index rg)) (lf_row_groups lf))"

definition cf_NumRows :: "chunk_file \<Rightarrow> nat" where
  "cf_NumRows cf = sum_list (map length (cf_row_groups cf))"

text \<open>
  The loop of \<^verbatim>\<open>TestConverter\<close> over the shards (lines 85 to 99), without the four
  checks of the columns: load both files of the shard, compare their rows, add them up.
\<close>

fun count_rows :: "bucket \<Rightarrow> block_name \<Rightarrow> nat list \<Rightarrow> nat \<Rightarrow> error + nat" where
  "count_rows bkt name [] totalRows = Inr totalRows"
| "count_rows bkt name (i # shards) totalRows =
     (case map_of (bkt_labels bkt) (name, i) of
        None \<Rightarrow> Inl (Errorf ''unable to load label parquet file for shard'')
      | Some lf \<Rightarrow>
          (case map_of (bkt_chunks bkt) (name, i) of
             None \<Rightarrow> Inl (Errorf ''unable to load chunk parquet file for shard'')
           | Some cf \<Rightarrow>
               if cf_NumRows cf \<noteq> lf_NumRows lf
               then Inl (Errorf ''labels and chunk file have different numbers of rows for shard'')
               else count_rows bkt name shards (totalRows + lf_NumRows lf)))"

text \<open>
  Modelled from the spec: the column index of a column chunk, which the writer keeps
  with the pages ("label columns are written with page-level min/max statistics"; the
  writer's source is missing): per page the least and the
  greatest of its values that are not null, and whether all of them are null. Bytes are
  compared as \<^verbatim>\<open>parquet.ByteArrayType.Compare\<close> does, a null as the empty string.
\<close>

definition cell_bytes :: "cell \<Rightarrow> string" where
  "cell_bytes c = (case c of None \<Rightarrow> [] | Some v \<Rightarrow> v)"

definition page_min :: "page \<Rightarrow> string" where
  "page_min p = (case List.map_filter id p of [] \<Rightarrow> [] | v # vs \<Rightarrow> fold min vs v)"

definition page_max :: "page \<Rightarrow> string" where
  "page_max p = (case List.map_filter id p of [] \<Rightarrow> [] | v # vs \<Rightarrow> fold max vs v)"

record column_index =
  MinValues :: "string list"
  MaxValues :: "string list"
  NullPages :: "bool list"

definition ColumnIndex :: "page list \<Rightarrow> column_index" where
  "ColumnIndex pages =
     \<lparr>MinValues = map page_min pages, MaxValues = map page_max pages,
      NullPages = map (\<lambda>p. List.map_filter id p = []) pages\<rparr>"

definition NumPages :: "column_index \<Rightarrow> nat" where
  "NumPages cidx = length (MinValues cidx)"

text \<open>
  \<^verbatim>\<open>IsAscending\<close> (library): the boundary order of the index is ascending when there
  is more than one page and neither the least nor the greatest values ever go down; as
  the test says, "columns with 0 or 1 page are never indexed as ascending".
\<close>

definition IsAscending :: "column_index \<Rightarrow> bool" where
  "IsAscending cidx =
     (1 < NumPages cidx \<and> sorted (MinValues cidx) \<and> sorted (MaxValues cidx))"

text \<open>
  \<^verbatim>\<open>nameColumnPageBoundsAreAscending\<close> (lines 174 to 191), for the column of the label
  \<open>name\<close> (the test passes \<^verbatim>\<open>labels.MetricName\<close>).
\<close>

fun page_bounds_ascending :: "string \<Rightarrow> label_row_group list \<Rightarrow> error + unit" where
  "page_bounds_ascending name [] = Inr ()"
| "page_bounds_ascending name (rg # rgs) =
     (case map_of (lrg_columns rg) name of
        None \<Rightarrow> Inl (Errorf (''unable to get column index for column: '' @ name))
      | Some pages \<Rightarrow>
          (let cidx = ColumnIndex pages
           in if \<not> IsAscending cidx \<and> 1 < NumPages cidx
              then Inl (Errorf (''column was not ascending: '' @ name))
              else page_bounds_ascending name rgs))"

definition nameColumnPageBoundsAreAscending :: "string \<Rightarrow> label_file \<Rightarrow> error + unit" where
  "nameColumnPageBoundsAreAscending name pf =
     (if name \<notin> set (lf_schema pf)
      then Inl (Errorf (''file is missing column for label key: '' @ name))
      else page_bounds_ascending name (lf_row_groups pf))"

text \<open>
  \<^verbatim>\<open>nameColumnValuesAreIncreasing\<close> (lines 193 to 234): in every page of the column, no
  value is greater than the one after it. The test compares the neighbours within each
  batch of values it is handed; here a page is one batch, which checks no less.
\<close>

fun values_increasing :: "cell list \<Rightarrow> bool" where
  "values_increasing (a # b # vs) =
     (\<not> cell_bytes b < cell_bytes a \<and> values_increasing (b # vs))"
| "values_increasing vs = True"

fun pages_increasing :: "page list \<Rightarrow> error + unit" where
  "pages_increasing [] = Inr ()"
| "pages_increasing (p # ps) =
     (if values_increasing p then pages_increasing ps
      else Inl (Wrapf ''unable to copy values :''
                  (Errorf ''expected the next value to be larger or equal'')))"

fun column_values_increasing :: "string \<Rightarrow> label_row_group list \<Rightarrow> error + unit" where
  "column_values_increasing name [] = Inr ()"
| "column_values_increasing name (rg # rgs) =
     (case map_of (lrg_columns rg) name of
        None \<Rightarrow> Inl (Errorf (''row group has no chunk for column: '' @ name))
      | Some pages \<Rightarrow>
          (case pages_increasing pages of
             Inl err \<Rightarrow> Inl err
           | Inr u \<Rightarrow> column_values_increasing name rgs))"

definition nameColumnValuesAreIncreasing :: "string \<Rightarrow> label_file \<Rightarrow> error + unit" where
  "nameColumnValuesAreIncreasing name pf =
     (if name \<notin> set (lf_schema pf)
      then Inl (Errorf (''file is missing column for label key: '' @ name))
      else column_values_increasing name (lf_row_groups pf))"

text \<open>The same comparison for every Meta of the catalog and every shard of it.\<close>

definition aligned :: "bucket \<Rightarrow> bool" where
  "aligned bkt =
     list_all
       (\<lambda>m. case count_rows bkt (fst m) [0..<meta_shards (snd m)] 0 of
              Inl err \<Rightarrow> False
            | Inr totalRows \<Rightarrow> True)
       (Discoverer_Metas bkt)"

section \<open>Inputs for the worked instances\<close>

definition always_fails :: "ctx \<Rightarrow> nat \<Rightarrow> error option \<times> nat" where
  "always_fails c n = (Some (Errorf ''bucket unreachable''), Suc n)"

definition fails_after_first :: "ctx \<Rightarrow> nat \<Rightarrow> error option \<times> nat" where
  "fails_after_first c n = (if n = 0 then None else Some (Errorf ''bucket unreachable''), Suc n)"

definition sync_always_fails :: "ctx \<Rightarrow> string list \<Rightarrow> nat \<Rightarrow> error option \<times> nat" where
  "sync_always_fails c ms n = (Some (Errorf ''bucket unreachable''), Suc n)"

definition sync_fails_after_first :: "ctx \<Rightarrow> string list \<Rightarrow> nat \<Rightarrow> error option \<times> nat" where
  "sync_fails_after_first c ms n =
     (if n = 0 then None else Some (Errorf ''bucket unreachable''), Suc n)"

definition no_metas :: "nat \<Rightarrow> string list" where
  "no_metas n = []"

definition fresh_world :: "nat world" where
  "fresh_world = \<lparr>logs = [], calls = [], comp = 0\<rparr>"

definition test_discoveryOpts :: discoveryOpts where
  "test_discoveryOpts = \<lparr>discoveryInterval = 60, discoveryConcurrency = 1\<rparr>"

definition test_tsdbDiscoveryOpts :: tsdbDiscoveryOpts where
  "test_tsdbDiscoveryOpts =
     \<lparr>tsdb_discoveryInterval = 60, tsdb_discoveryConcurrency = 1,
      tsdb_discoveryMinBlockAge = 0, externalLabelMatchers = []\<rparr>"

definition zero_tsdbDiscoveryOpts :: tsdbDiscoveryOpts where
  "zero_tsdbDiscoveryOpts =
     \<lparr>tsdb_discoveryInterval = 0, tsdb_discoveryConcurrency = 1,
      tsdb_discoveryMinBlockAge = 0, externalLabelMatchers = []\<rparr>"

definition test_syncerOpts :: "string \<Rightarrow> syncerOpts" where
  "test_syncerOpts ft =
     \<lparr>syncerInterval = 60, syncerConcurrency = 1, syncerReadBufferSize = 1024,
      syncerLabelFilesDir = [], filterType = ft, filterThanosBackfillEndpoint = [],
      filterThanosBackfillUpdateInterval = 30, filterThanosBackfillOverlap = 0\<rparr>"

definition test_bucketOpts :: "string \<Rightarrow> bucketOpts" where
  "test_bucketOpts st =
     \<lparr>storage = st, prefix = [], filesystemDirectory = ''/data'', s3Bucket = ''blocks'',
      s3Endpoint = ''localhost:9000'', s3AccessKey = [], s3SecretKey = [], s3Insecure = True,
      retries = 3\<rparr>"

definition marshal_id :: "BucketConfig \<Rightarrow> error + BucketConfig" where
  "marshal_id cfg = Inr cfg"

definition newBucket_id :: "BucketConfig \<Rightarrow> error + BucketConfig" where
  "newBucket_id bytes = Inr bytes"

text \<open>
  A smaller head block (the first 25 series of the test) with row groups of 10 rows and
  a page buffer of 24 bytes, and a catalog of two blocks.
\<close>

definition small_head :: source_block where
  "small_head =
     \<lparr>blk_mint = 1000, blk_maxt = 1000, blk_readable = True,
      blk_series = map test_series [0..<25]\<rparr>"

definition small_opts :: convert_opts where
  "small_opts =
     \<lparr>sortBy = [''__name__''], rowGroupSize = 10, shardCount = 2, labelPageBufferSize = 24\<rparr>"

definition two_metas :: "(block_name \<times> Meta) list" where
  "two_metas =
     [(BlockNameForDay 0,
       \<lparr>meta_name = BlockNameForDay 0, meta_mint = 1000, meta_maxt = 2000, meta_shards = 2\<rparr>),
      (BlockNameForDay 86400000,
       \<lparr>meta_name = BlockNameForDay 86400000, meta_mint = 86400000, meta_maxt = 86401000,
        meta_shards = 1\<rparr>)]"

section \<open>Properties of the wiring\<close>

text \<open>
  C10: the handlers of \<^verbatim>\<open>/-/healthy\<close> and \<^verbatim>\<open>/-/ready\<close> answer every request with
  status 200 and the body \<^verbatim>\<open>OK\<close>; the answer depends on nothing but the path.
\<close>

theorem health_ready_always_ok:
  "serve_exact (internal_mux pprof metrics) (r\<lparr>req_path := ''/-/healthy''\<rparr>)
     = Some \<lparr>status = Some 200, body = ''OK''\<rparr>
   \<and> serve_exact (internal_mux pprof metrics) (r\<lparr>req_path := ''/-/ready''\<rparr>)
     = Some \<lparr>status = Some 200, body = ''OK''\<rparr>
   \<and> healthy_handler r new_response = \<lparr>status = Some 200, body = ''OK''\<rparr>
   \<and> ready_handler r new_response = \<lparr>status = Some 200, body = ''OK''\<rparr>"
  by (simp add: serve_exact_def internal_mux_def healthy_handler_def ready_handler_def
      Fprintf_def WriteHeader_def new_response_def StatusOK_def)

lemma Repeat_loop_swallow:
  assumes "\<And>v. fst (f v) = None"
  shows "fst (Repeat_loop f sigs w) = (if Stop \<in> set sigs then Returned None else Waiting)"
  using assms
proof (induction sigs arbitrary: w)
  case Nil
  then show ?case by (simp split: prod.splits option.splits) (metis fst_conv option.distinct(1))
next
  case (Cons s sigs)
  have "fst (f w) = None" by (rule Cons.prems)
  then obtain w' where fw: "f w = (None, w')" by (cases "f w") auto
  show ?case
  proof (cases s)
    case Tick
    then show ?thesis using fw Cons.IH [OF Cons.prems] by simp
  next
    case Stop
    then show ?thesis using fw by simp
  qed
qed

lemma Repeat_loop_calls:
  assumes "\<And>v. fst (f v) = None"
    and "\<And>v. calls (snd (f v)) = calls v @ [c]"
  shows "calls (snd (Repeat_loop f sigs w)) =
           calls w @ replicate (Suc (length (takeWhile (\<lambda>s. s = Tick) sigs))) c"
  using assms
proof (induction sigs arbitrary: w)
  case Nil
  obtain w' where fw: "f w = (None, w')" using Nil(1) [of w] by (cases "f w") auto
  then show ?case using Nil(2) [of w] by simp
next
  case (Cons s sigs)
  obtain w' where fw: "f w = (None, w')" using Cons.prems(1) [of w] by (cases "f w") auto
  have cw: "calls w' = calls w @ [c]" using Cons.prems(2) [of w] fw by simp
  show ?case
  proof (cases s)
    case Tick
    then show ?thesis using fw cw Cons.IH [OF Cons.prems, of w'] by (simp add: replicate_append_same)
  next
    case Stop
    then show ?thesis using fw cw by simp
  qed
qed

text \<open>The loop with its ticker: a period that is not positive panics before any call.\<close>

lemma Repeat_swallow:
  assumes "\<And>v. fst (f v) = None"
  shows "fst (Repeat i f sigs w) =
     (if i \<le> 0 then Panicked else if Stop \<in> set sigs then Returned None else Waiting)"
  by (simp add: Repeat_def Repeat_loop_swallow [of f, OF assms])

lemma Repeat_calls:
  assumes "\<And>v. fst (f v) = None"
    and "\<And>v. calls (snd (f v)) = calls v @ [c]"
  shows "calls (snd (Repeat i f sigs w)) =
     calls w @ replicate (if i \<le> 0 then 0 else Suc (length (takeWhile (\<lambda>s. s = Tick) sigs))) c"
  by (simp add: Repeat_def Repeat_loop_calls [of f, OF assms])

lemma timeout_runs_out: "ctx_timeout cx = Some d \<Longrightarrow> d \<le> t \<Longrightarrow> done_after cx t"
  by (cases cx) auto

lemma discovery_work_nil: "fst (discovery_work D c opts v) = None"
  by (simp add: discovery_work_def Let_def split: prod.splits option.splits)

lemma discovery_work_calls:
  "calls (snd (discovery_work D c opts v)) = calls v @ [WithTimeout c (discoveryInterval opts)]"
  by (auto simp: discovery_work_def Let_def invoke_def emit_def split: prod.splits option.splits)

lemma discovery_work_warn:
  "fst (D (WithTimeout c (discoveryInterval opts)) (comp v)) = Some e \<Longrightarrow>
   logs (snd (discovery_work D c opts v)) =
     logs v @ [log_msg Debug ''Running discovery'', log_err Warn ''Unable to discover new blocks'' e]"
  by (auto simp: discovery_work_def Let_def invoke_def emit_def split: prod.splits option.splits)

lemma tsdb_discovery_work_nil: "fst (tsdb_discovery_work D c opts v) = None"
  by (simp add: tsdb_discovery_work_def Let_def split: prod.splits option.splits)

lemma tsdb_discovery_work_calls:
  "calls (snd (tsdb_discovery_work D c opts v)) = calls v @ [WithTimeout c (tsdb_discoveryInterval opts)]"
  by (auto simp: tsdb_discovery_work_def Let_def invoke_def emit_def split: prod.splits option.splits)

lemma tsdb_discovery_work_warn:
  "fst (D (WithTimeout c (tsdb_discoveryInterval opts)) (comp v)) = Some e \<Longrightarrow>
   logs (snd (tsdb_discovery_work D c opts v)) =
     logs v @ [log_msg Debug ''Running tsdb discovery'', log_err Warn ''Unable to discover new tsdb blocks'' e]"
  by (auto simp: tsdb_discovery_work_def Let_def invoke_def emit_def split: prod.splits option.splits)

lemma meta_filter_work_nil: "fst (meta_filter_work D c opts v) = None"
  by (simp add: meta_filter_work_def Let_def split: prod.splits option.splits)

lemma meta_filter_work_calls:
  "calls (snd (meta_filter_work D c opts v)) = calls v @ [WithTimeout c (filterThanosBackfillUpdateInterval opts)]"
  by (auto simp: meta_filter_work_def Let_def invoke_def emit_def split: prod.splits option.splits)

lemma meta_filter_work_warn:
  "fst (D (WithTimeout c (filterThanosBackfillUpdateInterval opts)) (comp v)) = Some e \<Longrightarrow>
   logs (snd (meta_filter_work D c opts v)) =
     logs v @ [log_msg Debug ''Updating thanos-backfill meta filter'',
               log_err Warn ''Unable to update thanos-backfill meta filter'' e]"
  by (auto simp: meta_filter_work_def Let_def invoke_def emit_def split: prod.splits option.splits)

lemma syncer_work_nil: "fst (syncer_work S M c opts v) = None"
  by (simp add: syncer_work_def Let_def split: prod.splits option.splits)

lemma syncer_work_calls:
  "calls (snd (syncer_work S M c opts v)) = calls v @ [WithTimeout c (syncerInterval opts)]"
  by (auto simp: syncer_work_def Let_def invoke_def emit_def split: prod.splits option.splits)

lemma syncer_work_warn:
  "fst (S (WithTimeout c (syncerInterval opts)) (M (comp v)) (comp v)) = Some e \<Longrightarrow>
   logs (snd (syncer_work S M c opts v)) =
     logs v @ [log_msg Debug ''Running sync'', log_err Warn ''Unable to sync new blocks'' e]"
  by (auto simp: syncer_work_def sync_call_def Let_def invoke_def emit_def split: prod.splits option.splits)

lemma setupDiscovery_ok:
  "fst (setupDiscovery D c g w opts) = Inr r \<Longrightarrow>
   fst (snd (setupDiscovery D c g w opts)) =
     g @ [\<lparr>period = discoveryInterval opts, stop_ctx = WithCancel Background,
           work = discovery_work D (WithCancel Background) opts,
           interrupt = emit (log_msg Info ''Stopping discovery'')\<rparr>]"
  by (auto simp: setupDiscovery_def Let_def split: prod.splits option.splits)

lemma setupTSDBDiscovery_ok:
  "fst (setupTSDBDiscovery D c g w opts) = Inr r \<Longrightarrow>
   fst (snd (setupTSDBDiscovery D c g w opts)) =
     g @ [\<lparr>period = tsdb_discoveryInterval opts, stop_ctx = WithCancel Background,
           work = tsdb_discovery_work D (WithCancel Background) opts,
           interrupt = emit (log_msg Info ''Stopping tsdb discovery'')\<rparr>]"
  by (auto simp: setupTSDBDiscovery_def Let_def split: prod.splits option.splits)

lemma setupMetaFilter_ok:
  "filterType opts = ''thanos-backfill'' \<Longrightarrow> fst (setupMetaFilter D c g w opts) = Inr r \<Longrightarrow>
   fst (snd (setupMetaFilter D c g w opts)) =
     g @ [\<lparr>period = filterThanosBackfillUpdateInterval opts, stop_ctx = WithCancel Background,
           work = meta_filter_work D (WithCancel Background) opts,
           interrupt = emit (log_msg Info ''Stopping thanos-backfill meta filter updates'')\<rparr>]"
  by (auto simp: setupMetaFilter_def Let_def split: prod.splits option.splits)

lemma setupSyncer_ok:
  "fst (setupSyncer S M c g w opts) = Inr r \<Longrightarrow>
   fst (snd (setupSyncer S M c g w opts)) =
     g @ [\<lparr>period = syncerInterval opts, stop_ctx = WithCancel Background,
           work = syncer_work S M (WithCancel Background) opts,
           interrupt = emit (log_msg Info ''Stopping syncer'')\<rparr>]"
  by (auto simp: setupSyncer_def Let_def split: prod.splits option.splits)

text \<open>
  C4: when the first, synchronous run of a component fails (initial discovery, initial
  TSDB discovery, initial update of the backfill meta filter, initial sync), its setup
  function returns the failure wrapped in an error and adds no actor to the group, so
  no periodic loop is started.
\<close>

theorem bootstrap_failure_is_fatal:
  "(fst (Discover (WithTimeout cA (discoveryInterval oA)) (comp wA)) = Some eA \<longrightarrow>
      fst (setupDiscovery Discover cA gA wA oA) = Inl (Wrapf ''unable to run initial discovery: '' eA)
      \<and> fst (snd (setupDiscovery Discover cA gA wA oA)) = gA)
   \<and> (fst (TSDBDiscover (WithTimeout cB (tsdb_discoveryInterval oB)) (comp wB)) = Some eB \<longrightarrow>
      fst (setupTSDBDiscovery TSDBDiscover cB gB wB oB)
        = Inl (Wrapf ''unable to run initial discovery: '' eB)
      \<and> fst (snd (setupTSDBDiscovery TSDBDiscover cB gB wB oB)) = gB)
   \<and> (filterType oC = ''thanos-backfill''
      \<and> fst (Update (WithTimeout cC (filterThanosBackfillUpdateInterval oC)) (comp wC)) = Some eC \<longrightarrow>
      fst (setupMetaFilter Update cC gC wC oC)
        = Inl (Wrapf ''unable to initialize thanos-backfill meta filter: '' eC)
      \<and> fst (snd (setupMetaFilter Update cC gC wC oC)) = gC)
   \<and> (fst (Sync (WithTimeout cD (syncerInterval oD)) (Metas (comp wD)) (comp wD)) = Some eD \<longrightarrow>
      fst (setupSyncer Sync Metas cD gD wD oD) = Inl (Wrapf ''unable to run initial sync: '' eD)
      \<and> fst (snd (setupSyncer Sync Metas cD gD wD oD)) = gD)"
  by (auto simp: setupDiscovery_def setupTSDBDiscovery_def setupMetaFilter_def setupSyncer_def
      sync_call_def invoke_def emit_def Let_def split: prod.splits option.splits)

text \<open>A bucket that cannot be reached: every setup function fails, no actor is added.\<close>

theorem bootstrap_failure_is_fatal_witness:
  "fst (always_fails (WithTimeout (Caller 0) (discoveryInterval test_discoveryOpts))
         (comp fresh_world)) = Some (Errorf ''bucket unreachable'')
   \<and> fst (setupDiscovery always_fails (Caller 0) [] fresh_world test_discoveryOpts)
       = Inl (Wrapf ''unable to run initial discovery: '' (Errorf ''bucket unreachable''))
   \<and> fst (snd (setupDiscovery always_fails (Caller 0) [] fresh_world test_discoveryOpts)) = []
   \<and> fst (setupTSDBDiscovery always_fails (Caller 0) [] fresh_world test_tsdbDiscoveryOpts)
       = Inl (Wrapf ''unable to run initial discovery: '' (Errorf ''bucket unreachable''))
   \<and> filterType (test_syncerOpts ''thanos-backfill'') = ''thanos-backfill''
   \<and> fst (setupMetaFilter always_fails (Caller 0) [] fresh_world
            (test_syncerOpts ''thanos-backfill''))
       = Inl (Wrapf ''unable to initialize thanos-backfill meta filter: ''
               (Errorf ''bucket unreachable''))
   \<and> fst (setupSyncer sync_always_fails no_metas (Caller 0) [] fresh_world
            (test_syncerOpts ''all-metas''))
       = Inl (Wrapf ''unable to run initial sync: '' (Errorf ''bucket unreachable''))"
  using bootstrap_failure_is_fatal [where Discover = always_fails and cA = "Caller 0"
      and gA = "[]" and wA = fresh_world and oA = test_discoveryOpts
      and eA = "Errorf ''bucket unreachable''"
      and TSDBDiscover = always_fails and cB = "Caller 0"
      and gB = "[]" and wB = fresh_world and oB = test_tsdbDiscoveryOpts
      and eB = "Errorf ''bucket unreachable''"
      and Update = always_fails and cC = "Caller 0"
      and gC = "[]" and wC = fresh_world and oC = "test_syncerOpts ''thanos-backfill''"
      and eC = "Errorf ''bucket unreachable''"
      and Sync = sync_always_fails and Metas = no_metas and cD = "Caller 0"
      and gD = "[]" and wD = fresh_world and oD = "test_syncerOpts ''all-metas''"
      and eD = "Errorf ''bucket unreachable''"]
  by (simp add: always_fails_def sync_always_fails_def test_syncerOpts_def)

text \<open>
  C5: after a successful bootstrap the setup function has added exactly one actor, whose
  period is the configured interval. Its work function returns nil in every state; when
  the component's operation fails there, the last log record is the warning with that
  error. So with a positive interval the loop never returns an error (it returns nil
  once stopped and waits otherwise), and it calls the operation once at the start and
  once more for every tick before the stop, failures or not. With an interval that is
  not positive there is no loop to speak of: the ticker panics before the first call.
\<close>

theorem cycle_failures_are_swallowed:
  "(fst (setupDiscovery Discover cA gA wA oA) = Inr rA \<longrightarrow>
      (let a = loop_actor (setupDiscovery Discover cA gA wA oA) in
         fst (snd (setupDiscovery Discover cA gA wA oA)) = gA @ [a]
         \<and> period a = discoveryInterval oA
         \<and> fst (work a vA) = None
         \<and> (fst (Discover (WithTimeout (stop_ctx a) (period a)) (comp vA)) = Some eA \<longrightarrow>
              last (logs (snd (work a vA))) = \<lparr>lvl = Warn, msg = ''Unable to discover new blocks'', err_attr = Some eA\<rparr>)
         \<and> fst (execute a sigsA vA) = (if period a \<le> 0 then Panicked
              else if Stop \<in> set sigsA then Returned None else Waiting)
         \<and> length (calls (snd (execute a sigsA vA)))
             = length (calls vA)
               + (if period a \<le> 0 then 0
                  else Suc (length (takeWhile (\<lambda>s. s = Tick) sigsA)))))
   \<and> (fst (setupTSDBDiscovery TSDBDiscover cB gB wB oB) = Inr rB \<longrightarrow>
      (let a = loop_actor (setupTSDBDiscovery TSDBDiscover cB gB wB oB) in
         fst (snd (setupTSDBDiscovery TSDBDiscover cB gB wB oB)) = gB @ [a]
         \<and> period a = tsdb_discoveryInterval oB
         \<and> fst (work a vB) = None
         \<and> (fst (TSDBDiscover (WithTimeout (stop_ctx a) (period a)) (comp vB)) = Some eB \<longrightarrow>
              last (logs (snd (work a vB)))
                = \<lparr>lvl = Warn, msg = ''Unable to discover new tsdb blocks'', err_attr = Some eB\<rparr>)
         \<and> fst (execute a sigsB vB) = (if period a \<le> 0 then Panicked
              else if Stop \<in> set sigsB then Returned None else Waiting)
         \<and> length (calls (snd (execute a sigsB vB)))
             = length (calls vB)
               + (if period a \<le> 0 then 0
                  else Suc (length (takeWhile (\<lambda>s. s = Tick) sigsB)))))
   \<and> (filterType oC = ''thanos-backfill'' \<and> fst (setupMetaFilter Update cC gC wC oC) = Inr rC \<longrightarrow>
      (let a = loop_actor (setupMetaFilter Update cC gC wC oC) in
         fst (snd (setupMetaFilter Update cC gC wC oC)) = gC @ [a]
         \<and> period a = filterThanosBackfillUpdateInterval oC
         \<and> fst (work a vC) = None
         \<and> (fst (Update (WithTimeout (stop_ctx a) (period a)) (comp vC)) = Some eC \<longrightarrow>
              last (logs (snd (work a vC)))
                = \<lparr>lvl = Warn, msg = ''Unable to update thanos-backfill meta filter'', err_attr = Some eC\<rparr>)
         \<and> fst (execute a sigsC vC) = (if period a \<le> 0 then Panicked
              else if Stop \<in> set sigsC then Returned None else Waiting)
         \<and> length (calls (snd (execute a sigsC vC)))
             = length (calls vC)
               + (if period a \<le> 0 then 0
                  else Suc (length (takeWhile (\<lambda>s. s = Tick) sigsC)))))
   \<and> (fst (setupSyncer Sync Metas cD gD wD oD) = Inr rD \<longrightarrow>
      (let a = loop_actor (setupSyncer Sync Metas cD gD wD oD) in
         fst (snd (setupSyncer Sync Metas cD gD wD oD)) = gD @ [a]
         \<and> period a = syncerInterval oD
         \<and> fst (work a vD) = None
         \<and> (fst (Sync (WithTimeout (stop_ctx a) (period a)) (Metas (comp vD)) (comp vD)) = Some eD
              \<longrightarrow> last (logs (snd (work a vD))) = \<lparr>lvl = Warn, msg = ''Unable to sync new blocks'', err_attr = Some eD\<rparr>)
         \<and> fst (execute a sigsD vD) = (if period a \<le> 0 then Panicked
              else if Stop \<in> set sigsD then Returned None else Waiting)
         \<and> length (calls (snd (execute a sigsD vD)))
             = length (calls vD)
               + (if period a \<le> 0 then 0
                  else Suc (length (takeWhile (\<lambda>s. s = Tick) sigsD)))))"
proof (intro conjI impI)
  assume ok: "fst (setupDiscovery Discover cA gA wA oA) = Inr rA"
  show "let a = loop_actor (setupDiscovery Discover cA gA wA oA) in
         fst (snd (setupDiscovery Discover cA gA wA oA)) = gA @ [a]
         \<and> period a = discoveryInterval oA
         \<and> fst (work a vA) = None
         \<and> (fst (Discover (WithTimeout (stop_ctx a) (period a)) (comp vA)) = Some eA \<longrightarrow>
              last (logs (snd (work a vA))) = \<lparr>lvl = Warn, msg = ''Unable to discover new blocks'', err_attr = Some eA\<rparr>)
         \<and> fst (execute a sigsA vA) = (if period a \<le> 0 then Panicked
              else if Stop \<in> set sigsA then Returned None else Waiting)
         \<and> length (calls (snd (execute a sigsA vA)))
             = length (calls vA)
               + (if period a \<le> 0 then 0
                  else Suc (length (takeWhile (\<lambda>s. s = Tick) sigsA)))"
    unfolding Let_def loop_actor_def setupDiscovery_ok [OF ok] execute_def
    by (simp add: log_err_def discovery_work_nil discovery_work_warn
        Repeat_swallow [where f = "discovery_work Discover (WithCancel Background) oA", OF discovery_work_nil]
        Repeat_calls [where f = "discovery_work Discover (WithCancel Background) oA", OF discovery_work_nil discovery_work_calls])
next
  assume ok: "fst (setupTSDBDiscovery TSDBDiscover cB gB wB oB) = Inr rB"
  show "let a = loop_actor (setupTSDBDiscovery TSDBDiscover cB gB wB oB) in
         fst (snd (setupTSDBDiscovery TSDBDiscover cB gB wB oB)) = gB @ [a]
         \<and> period a = tsdb_discoveryInterval oB
         \<and> fst (work a vB) = None
         \<and> (fst (TSDBDiscover (WithTimeout (stop_ctx a) (period a)) (comp vB)) = Some eB \<longrightarrow>
              last (logs (snd (work a vB)))
                = \<lparr>lvl = Warn, msg = ''Unable to discover new tsdb blocks'', err_attr = Some eB\<rparr>)
         \<and> fst (execute a sigsB vB) = (if period a \<le> 0 then Panicked
              else if Stop \<in> set sigsB then Returned None else Waiting)
         \<and> length (calls (snd (execute a sigsB vB)))
             = length (calls vB)
               + (if period a \<le> 0 then 0
                  else Suc (length (takeWhile (\<lambda>s. s = Tick) sigsB)))"
    unfolding Let_def loop_actor_def setupTSDBDiscovery_ok [OF ok] execute_def
    by (simp add: log_err_def tsdb_discovery_work_nil tsdb_discovery_work_warn
        Repeat_swallow [where f = "tsdb_discovery_work TSDBDiscover (WithCancel Background) oB", OF tsdb_discovery_work_nil]
        Repeat_calls [where f = "tsdb_discovery_work TSDBDiscover (WithCancel Background) oB", OF tsdb_discovery_work_nil tsdb_discovery_work_calls])
next
  assume "filterType oC = ''thanos-backfill'' \<and> fst (setupMetaFilter Update cC gC wC oC) = Inr rC"
  then have ft: "filterType oC = ''thanos-backfill''"
    and ok: "fst (setupMetaFilter Update cC gC wC oC) = Inr rC" by simp_all
  show "let a = loop_actor (setupMetaFilter Update cC gC wC oC) in
         fst (snd (setupMetaFilter Update cC gC wC oC)) = gC @ [a]
         \<and> period a = filterThanosBackfillUpdateInterval oC
         \<and> fst (work a vC) = None
         \<and> (fst (Update (WithTimeout (stop_ctx a) (period a)) (comp vC)) = Some eC \<longrightarrow>
              last (logs (snd (work a vC)))
                = \<lparr>lvl = Warn, msg = ''Unable to update thanos-backfill meta filter'', err_attr = Some eC\<rparr>)
         \<and> fst (execute a sigsC vC) = (if period a \<le> 0 then Panicked
              else if Stop \<in> set sigsC then Returned None else Waiting)
         \<and> length (calls (snd (execute a sigsC vC)))
             = length (calls vC)
               + (if period a \<le> 0 then 0
                  else Suc (length (takeWhile (\<lambda>s. s = Tick) sigsC)))"
    unfolding Let_def loop_actor_def setupMetaFilter_ok [OF ft ok] execute_def
    by (simp add: log_err_def meta_filter_work_nil meta_filter_work_warn
        Repeat_swallow [where f = "meta_filter_work Update (WithCancel Background) oC", OF meta_filter_work_nil]
        Repeat_calls [where f = "meta_filter_work Update (WithCancel Background) oC", OF meta_filter_work_nil meta_filter_work_calls])
next
  assume ok: "fst (setupSyncer Sync Metas cD gD wD oD) = Inr rD"
  show "let a = loop_actor (setupSyncer Sync Metas cD gD wD oD) in
         fst (snd (setupSyncer Sync Metas cD gD wD oD)) = gD @ [a]
         \<and> period a = syncerInterval oD
         \<and> fst (work a vD) = None
         \<and> (fst (Sync (WithTimeout (stop_ctx a) (period a)) (Metas (comp vD)) (comp vD)) = Some eD
              \<longrightarrow> last (logs (snd (work a vD))) = \<lparr>lvl = Warn, msg = ''Unable to sync new blocks'', err_attr = Some eD\<rparr>)
         \<and> fst (execute a sigsD vD) = (if period a \<le> 0 then Panicked
              else if Stop \<in> set sigsD then Returned None else Waiting)
         \<and> length (calls (snd (execute a sigsD vD)))
             = length (calls vD)
               + (if period a \<le> 0 then 0
                  else Suc (length (takeWhile (\<lambda>s. s = Tick) sigsD)))"
    unfolding Let_def loop_actor_def setupSyncer_ok [OF ok] execute_def
    by (simp add: log_err_def syncer_work_nil syncer_work_warn
        Repeat_swallow [where f = "syncer_work Sync Metas (WithCancel Background) oD", OF syncer_work_nil]
        Repeat_calls [where f = "syncer_work Sync Metas (WithCancel Background) oD", OF syncer_work_nil syncer_work_calls])
qed

text \<open>
  An operation that succeeds once and fails ever after: the bootstrap passes, each later
  cycle logs its warning, and two ticks and a stop make four calls in all. With an
  interval of 0 the bootstrap passes as well, and the loop panics with nothing called.
\<close>

theorem cycle_failures_are_swallowed_witness:
  "fst (setupDiscovery fails_after_first (Caller 0) [] fresh_world test_discoveryOpts) = Inr ()
   \<and> fst (fails_after_first (WithTimeout (WithCancel Background) 60) (Suc 0))
       = Some (Errorf ''bucket unreachable'')
   \<and> (let a = loop_actor (setupDiscovery fails_after_first (Caller 0) [] fresh_world
                  test_discoveryOpts);
          v = snd (snd (setupDiscovery fails_after_first (Caller 0) [] fresh_world
                  test_discoveryOpts))
      in fst (work a v) = None
         \<and> last (logs (snd (work a v)))
             = \<lparr>lvl = Warn, msg = ''Unable to discover new blocks'',
                err_attr = Some (Errorf ''bucket unreachable'')\<rparr>
         \<and> fst (execute a [Tick, Tick, Stop] v) = Returned None
         \<and> length (calls (snd (execute a [Tick, Tick, Stop] v))) = 4)
   \<and> fst (setupTSDBDiscovery fails_after_first (Caller 0) [] fresh_world zero_tsdbDiscoveryOpts)
       = Inr ()
   \<and> fst (execute (loop_actor (setupTSDBDiscovery fails_after_first (Caller 0) [] fresh_world
                 zero_tsdbDiscoveryOpts)) [Tick, Stop] fresh_world) = Panicked
   \<and> length (calls (snd (execute (loop_actor (setupTSDBDiscovery fails_after_first (Caller 0)
                 [] fresh_world zero_tsdbDiscoveryOpts)) [Tick, Stop] fresh_world))) = 0
   \<and> filterType (test_syncerOpts ''thanos-backfill'') = ''thanos-backfill''
   \<and> fst (setupMetaFilter fails_after_first (Caller 0) [] fresh_world
            (test_syncerOpts ''thanos-backfill''))
       = Inr (ThanosBackfillMetaFilter [] 0)
   \<and> fst (setupSyncer sync_fails_after_first no_metas (Caller 0) [] fresh_world
            (test_syncerOpts ''all-metas'')) = Inr ()"
proof -
  let ?R = "setupDiscovery fails_after_first (Caller 0) [] fresh_world test_discoveryOpts"
  have ok: "fst ?R = Inr ()"
    by (simp add: setupDiscovery_def invoke_def emit_def fails_after_first_def fresh_world_def
        Let_def)
  have v: "comp (snd (snd ?R)) = Suc 0" "calls (snd (snd ?R)) = [WithTimeout (Caller 0) 60]"
    by (simp_all add: setupDiscovery_def invoke_def emit_def fails_after_first_def
        fresh_world_def test_discoveryOpts_def Let_def)
  have a: "stop_ctx (loop_actor ?R) = WithCancel Background" "period (loop_actor ?R) = 60"
    by (simp_all add: setupDiscovery_def invoke_def emit_def fails_after_first_def
        fresh_world_def test_discoveryOpts_def loop_actor_def Let_def)
  have f: "fst (fails_after_first (WithTimeout (WithCancel Background) 60) (Suc 0))
       = Some (Errorf ''bucket unreachable'')"
    by (simp add: fails_after_first_def)
  have others: "fst (setupTSDBDiscovery fails_after_first (Caller 0) [] fresh_world
       zero_tsdbDiscoveryOpts) = Inr ()"
    "fst (setupMetaFilter fails_after_first (Caller 0) [] fresh_world
            (test_syncerOpts ''thanos-backfill'')) = Inr (ThanosBackfillMetaFilter [] 0)"
    "fst (setupSyncer sync_fails_after_first no_metas (Caller 0) [] fresh_world
            (test_syncerOpts ''all-metas'')) = Inr ()"
    by (simp_all add: setupTSDBDiscovery_def setupMetaFilter_def setupSyncer_def sync_call_def
        invoke_def emit_def fails_after_first_def sync_fails_after_first_def fresh_world_def
        test_syncerOpts_def Let_def)
  have z: "tsdb_discoveryInterval zero_tsdbDiscoveryOpts = 0" "calls fresh_world = []"
    by (simp_all add: zero_tsdbDiscoveryOpts_def fresh_world_def)
  show ?thesis
    using cycle_failures_are_swallowed [where Discover = fails_after_first and cA = "Caller 0"
        and gA = "[]" and wA = fresh_world and oA = test_discoveryOpts and rA = "()"
        and vA = "snd (snd ?R)" and eA = "Errorf ''bucket unreachable''"
        and sigsA = "[Tick, Tick, Stop]"
        and TSDBDiscover = fails_after_first and cB = "Caller 0" and gB = "[]"
        and wB = fresh_world and oB = zero_tsdbDiscoveryOpts and rB = "()"
        and vB = fresh_world and sigsB = "[Tick, Stop]"
        and Update = fails_after_first and cC = "Caller 0" and gC = "[]" and wC = fresh_world
        and oC = "test_syncerOpts ''thanos-backfill''" and rC = "ThanosBackfillMetaFilter [] 0"
        and Sync = sync_fails_after_first and Metas = no_metas and cD = "Caller 0"
        and gD = "[]" and wD = fresh_world and oD = "test_syncerOpts ''all-metas''"
        and rD = "()" and vD = fresh_world and sigsD = "[]"
        and vC = fresh_world and sigsC = "[]"
        and eB = "Errorf ''bucket unreachable''" and eC = "Errorf ''bucket unreachable''"
        and eD = "Errorf ''bucket unreachable''"]
      ok v a f others z
    by (simp add: Let_def test_syncerOpts_def)
qed

text \<open>
  C8: every call of a component's periodic operation gets a context made by
  \<^verbatim>\<open>context.WithTimeout\<close> with the loop's own interval: the bootstrap call of each
  setup function, and every call made by the loop it starts, under any sequence of ticks
  (none at all when the interval is not positive and the ticker panics). A context with
  that timeout is done once the interval has elapsed since it was made: an iteration
  that overruns its interval is canceled.
\<close>

theorem iterations_run_under_interval_timeout:
  "map ctx_timeout (calls (snd (snd (setupDiscovery Discover cA gA wA oA))))
      = map ctx_timeout (calls wA) @ [Some (discoveryInterval oA)]
   \<and> (fst (setupDiscovery Discover cA gA wA oA) = Inr rA \<longrightarrow>
        map ctx_timeout
          (calls (snd (execute (loop_actor (setupDiscovery Discover cA gA wA oA)) sigsA vA)))
        = map ctx_timeout (calls vA)
          @ replicate (if discoveryInterval oA \<le> 0 then 0
                       else Suc (length (takeWhile (\<lambda>s. s = Tick) sigsA)))
              (Some (discoveryInterval oA)))
   \<and> map ctx_timeout (calls (snd (snd (setupTSDBDiscovery TSDBDiscover cB gB wB oB))))
      = map ctx_timeout (calls wB) @ [Some (tsdb_discoveryInterval oB)]
   \<and> (fst (setupTSDBDiscovery TSDBDiscover cB gB wB oB) = Inr rB \<longrightarrow>
        map ctx_timeout
          (calls (snd (execute (loop_actor (setupTSDBDiscovery TSDBDiscover cB gB wB oB))
             sigsB vB)))
        = map ctx_timeout (calls vB)
          @ replicate (if tsdb_discoveryInterval oB \<le> 0 then 0
                       else Suc (length (takeWhile (\<lambda>s. s = Tick) sigsB)))
              (Some (tsdb_discoveryInterval oB)))
   \<and> (filterType oC = ''thanos-backfill'' \<longrightarrow>
        map ctx_timeout (calls (snd (snd (setupMetaFilter Update cC gC wC oC))))
        = map ctx_timeout (calls wC) @ [Some (filterThanosBackfillUpdateInterval oC)])
   \<and> (filterType oC = ''thanos-backfill'' \<and> fst (setupMetaFilter Update cC gC wC oC) = Inr rC
        \<longrightarrow>
        map ctx_timeout
          (calls (snd (execute (loop_actor (setupMetaFilter Update cC gC wC oC)) sigsC vC)))
        = map ctx_timeout (calls vC)
          @ replicate (if filterThanosBackfillUpdateInterval oC \<le> 0 then 0
                       else Suc (length (takeWhile (\<lambda>s. s = Tick) sigsC)))
              (Some (filterThanosBackfillUpdateInterval oC)))
   \<and> map ctx_timeout (calls (snd (snd (setupSyncer Sync Metas cD gD wD oD))))
      = map ctx_timeout (calls wD) @ [Some (syncerInterval oD)]
   \<and> (fst (setupSyncer Sync Metas cD gD wD oD) = Inr rD \<longrightarrow>
        map ctx_timeout
          (calls (snd (execute (loop_actor (setupSyncer Sync Metas cD gD wD oD)) sigsD vD)))
        = map ctx_timeout (calls vD)
          @ replicate (if syncerInterval oD \<le> 0 then 0
                       else Suc (length (takeWhile (\<lambda>s. s = Tick) sigsD)))
              (Some (syncerInterval oD)))
   \<and> (ctx_timeout cx = Some d \<and> d \<le> t \<longrightarrow> done_after cx t)"
proof (intro conjI impI)
  show "map ctx_timeout (calls (snd (snd (setupDiscovery Discover cA gA wA oA))))
      = map ctx_timeout (calls wA) @ [Some (discoveryInterval oA)]"
    by (auto simp: setupDiscovery_def invoke_def emit_def Let_def
        split: prod.splits option.splits)
next
  assume ok: "fst (setupDiscovery Discover cA gA wA oA) = Inr rA"
  show "map ctx_timeout
          (calls (snd (execute (loop_actor (setupDiscovery Discover cA gA wA oA)) sigsA vA)))
        = map ctx_timeout (calls vA)
          @ replicate (if discoveryInterval oA \<le> 0 then 0
                       else Suc (length (takeWhile (\<lambda>s. s = Tick) sigsA)))
              (Some (discoveryInterval oA))"
    unfolding loop_actor_def setupDiscovery_ok [OF ok] execute_def
    by (simp add: Repeat_calls [where f = "discovery_work Discover (WithCancel Background) oA",
          OF discovery_work_nil discovery_work_calls])
next
  show "map ctx_timeout (calls (snd (snd (setupTSDBDiscovery TSDBDiscover cB gB wB oB))))
      = map ctx_timeout (calls wB) @ [Some (tsdb_discoveryInterval oB)]"
    by (auto simp: setupTSDBDiscovery_def invoke_def emit_def Let_def
        split: prod.splits option.splits)
next
  assume ok: "fst (setupTSDBDiscovery TSDBDiscover cB gB wB oB) = Inr rB"
  show "map ctx_timeout
          (calls (snd (execute (loop_actor (setupTSDBDiscovery TSDBDiscover cB gB wB oB))
             sigsB vB)))
        = map ctx_timeout (calls vB)
          @ replicate (if tsdb_discoveryInterval oB \<le> 0 then 0
                       else Suc (length (takeWhile (\<lambda>s. s = Tick) sigsB)))
              (Some (tsdb_discoveryInterval oB))"
    unfolding loop_actor_def setupTSDBDiscovery_ok [OF ok] execute_def
    by (simp add: Repeat_calls [where f = "tsdb_discovery_work TSDBDiscover (WithCancel Background) oB",
          OF tsdb_discovery_work_nil tsdb_discovery_work_calls])
next
  assume "filterType oC = ''thanos-backfill''"
  then show "map ctx_timeout (calls (snd (snd (setupMetaFilter Update cC gC wC oC))))
        = map ctx_timeout (calls wC) @ [Some (filterThanosBackfillUpdateInterval oC)]"
    by (auto simp: setupMetaFilter_def invoke_def emit_def Let_def
        split: prod.splits option.splits)
next
  assume "filterType oC = ''thanos-backfill'' \<and> fst (setupMetaFilter Update cC gC wC oC) = Inr rC"
  then have ft: "filterType oC = ''thanos-backfill''"
    and ok: "fst (setupMetaFilter Update cC gC wC oC) = Inr rC" by simp_all
  show "map ctx_timeout
          (calls (snd (execute (loop_actor (setupMetaFilter Update cC gC wC oC)) sigsC vC)))
        = map ctx_timeout (calls vC)
          @ replicate (if filterThanosBackfillUpdateInterval oC \<le> 0 then 0
                       else Suc (length (takeWhile (\<lambda>s. s = Tick) sigsC)))
              (Some (filterThanosBackfillUpdateInterval oC))"
    unfolding loop_actor_def setupMetaFilter_ok [OF ft ok] execute_def
    by (simp add: Repeat_calls [where f = "meta_filter_work Update (WithCancel Background) oC",
          OF meta_filter_work_nil meta_filter_work_calls])
next
  show "map ctx_timeout (calls (snd (snd (setupSyncer Sync Metas cD gD wD oD))))
      = map ctx_timeout (calls wD) @ [Some (syncerInterval oD)]"
    by (auto simp: setupSyncer_def invoke_def emit_def Let_def
        split: prod.splits option.splits)
next
  assume ok: "fst (setupSyncer Sync Metas cD gD wD oD) = Inr rD"
  show "map ctx_timeout
          (calls (snd (execute (loop_actor (setupSyncer Sync Metas cD gD wD oD)) sigsD vD)))
        = map ctx_timeout (calls vD)
          @ replicate (if syncerInterval oD \<le> 0 then 0
                       else Suc (length (takeWhile (\<lambda>s. s = Tick) sigsD)))
              (Some (syncerInterval oD))"
    unfolding loop_actor_def setupSyncer_ok [OF ok] execute_def
    by (simp add: Repeat_calls [where f = "syncer_work Sync Metas (WithCancel Background) oD",
          OF syncer_work_nil syncer_work_calls])
next
  assume "ctx_timeout cx = Some d \<and> d \<le> t"
  then show "done_after cx t" by (simp add: timeout_runs_out)
qed

text \<open>
  With an interval of 60 (and 30 for the filter) every recorded timeout is that
  interval, and such a context is done after 60 and not, for all one knows, after 59;
  with an interval of 0 the loop makes no call.
\<close>

theorem iterations_run_under_interval_timeout_witness:
  "fst (setupDiscovery fails_after_first (Caller 0) [] fresh_world test_discoveryOpts) = Inr ()
   \<and> map ctx_timeout
       (calls (snd (execute (loop_actor (setupDiscovery fails_after_first (Caller 0) []
          fresh_world test_discoveryOpts)) [Tick, Tick, Stop] fresh_world)))
     = [Some 60, Some 60, Some 60]
   \<and> map ctx_timeout (calls (snd (snd (setupDiscovery fails_after_first (Caller 0) []
          fresh_world test_discoveryOpts)))) = [Some 60]
   \<and> filterType (test_syncerOpts ''thanos-backfill'') = ''thanos-backfill''
   \<and> fst (setupMetaFilter fails_after_first (Caller 0) [] fresh_world
            (test_syncerOpts ''thanos-backfill'')) = Inr (ThanosBackfillMetaFilter [] 0)
   \<and> map ctx_timeout
       (calls (snd (execute (loop_actor (setupMetaFilter fails_after_first (Caller 0) []
          fresh_world (test_syncerOpts ''thanos-backfill''))) [Tick, Stop] fresh_world)))
     = [Some 30, Some 30]
   \<and> fst (setupTSDBDiscovery fails_after_first (Caller 0) [] fresh_world zero_tsdbDiscoveryOpts)
       = Inr ()
   \<and> map ctx_timeout
       (calls (snd (execute (loop_actor (setupTSDBDiscovery fails_after_first (Caller 0) []
          fresh_world zero_tsdbDiscoveryOpts)) [Tick, Stop] fresh_world)))
     = []
   \<and> ctx_timeout (WithTimeout (WithCancel Background) 60) = Some 60
   \<and> done_after (WithTimeout (WithCancel Background) 60) 60
   \<and> \<not> done_after (WithTimeout (WithCancel Background) 60) 59
   \<and> fst (setupSyncer sync_fails_after_first no_metas (Caller 0) [] fresh_world
            (test_syncerOpts ''all-metas'')) = Inr ()"
proof -
  have oks: "fst (setupDiscovery fails_after_first (Caller 0) [] fresh_world test_discoveryOpts)
       = Inr ()"
    "fst (setupTSDBDiscovery fails_after_first (Caller 0) [] fresh_world
       zero_tsdbDiscoveryOpts) = Inr ()"
    "fst (setupMetaFilter fails_after_first (Caller 0) [] fresh_world
            (test_syncerOpts ''thanos-backfill'')) = Inr (ThanosBackfillMetaFilter [] 0)"
    "fst (setupSyncer sync_fails_after_first no_metas (Caller 0) [] fresh_world
            (test_syncerOpts ''all-metas'')) = Inr ()"
    by (simp_all add: setupDiscovery_def setupTSDBDiscovery_def setupMetaFilter_def
        setupSyncer_def sync_call_def invoke_def emit_def fails_after_first_def
        sync_fails_after_first_def fresh_world_def test_syncerOpts_def Let_def)
  show ?thesis
    using iterations_run_under_interval_timeout [where Discover = fails_after_first
        and cA = "Caller 0" and gA = "[]" and wA = fresh_world and oA = test_discoveryOpts
        and rA = "()" and vA = fresh_world and sigsA = "[Tick, Tick, Stop]"
        and TSDBDiscover = fails_after_first and cB = "Caller 0" and gB = "[]"
        and wB = fresh_world and oB = zero_tsdbDiscoveryOpts and rB = "()"
        and vB = fresh_world and sigsB = "[Tick, Stop]"
        and Update = fails_after_first and cC = "Caller 0" and gC = "[]" and wC = fresh_world
        and oC = "test_syncerOpts ''thanos-backfill''" and rC = "ThanosBackfillMetaFilter [] 0"
        and vC = fresh_world and sigsC = "[Tick, Stop]"
        and Sync = sync_fails_after_first and Metas = no_metas and cD = "Caller 0"
        and gD = "[]" and wD = fresh_world and oD = "test_syncerOpts ''all-metas''"
        and rD = "()" and vD = fresh_world and sigsD = "[]"
        and cx = "WithTimeout (WithCancel Background) 60" and d = 60 and t = 60]
      oks
    by (simp add: fresh_world_def test_discoveryOpts_def test_syncerOpts_def
        zero_tsdbDiscoveryOpts_def)
qed

lemma ToUpper_FILESYSTEM: "ToUpper uni FILESYSTEM = FILESYSTEM"
  by code_simp

lemma ToUpper_S3: "ToUpper uni S3 = S3"
  by code_simp

text \<open>
  C6: a storage name that is neither of the two providers after upper-casing makes
  \<^verbatim>\<open>setupBucket\<close> return the "unknown bucket type" error, whatever the marshaller and
  the client would do; a filter type that is neither of the two policies makes
  \<^verbatim>\<open>setupMetaFilter\<close> return the "unknown meta filter type" error with the group and
  the world untouched: nothing is called, nothing is retried.
\<close>

theorem unknown_config_is_fatal:
  "(ToUpper uni (storage bo) \<noteq> FILESYSTEM \<and> ToUpper uni (storage bo) \<noteq> S3 \<longrightarrow>
      setupBucket uni marshal newBucket bo
        = Inl (Errorf (''unknown bucket type: '' @ ToUpper uni (storage bo))))
   \<and> (filterType so \<noteq> ''all-metas'' \<and> filterType so \<noteq> ''thanos-backfill'' \<longrightarrow>
      setupMetaFilter Update c g w so
        = (Inl (Errorf (''unknown meta filter type: '' @ filterType so)), g, w))"
  by (simp add: setupBucket_def setupMetaFilter_def Let_def)

text \<open>The storage name \<^verbatim>\<open>gcs\<close> and the filter type \<^verbatim>\<open>newest-only\<close> are both refused.\<close>

theorem unknown_config_is_fatal_witness:
  "ToUpper id ''gcs'' \<noteq> FILESYSTEM \<and> ToUpper id ''gcs'' \<noteq> S3
   \<and> setupBucket id marshal_id newBucket_id (test_bucketOpts ''gcs'')
       = Inl (Errorf ''unknown bucket type: GCS'')
   \<and> setupMetaFilter always_fails (Caller 0) [] fresh_world (test_syncerOpts ''newest-only'')
       = (Inl (Errorf ''unknown meta filter type: newest-only''), [], fresh_world)"
proof -
  have up: "ToUpper id ''gcs'' = ''GCS''" by code_simp
  show ?thesis
    using unknown_config_is_fatal [where uni = id and bo = "test_bucketOpts ''gcs''"
        and marshal = marshal_id and newBucket = newBucket_id
        and so = "test_syncerOpts ''newest-only''" and Update = always_fails
        and c = "Caller 0" and g = "[]" and w = fresh_world]
    by (simp add: up test_bucketOpts_def test_syncerOpts_def FILESYSTEM_def S3_def)
qed

text \<open>
  Equality up to case and \<^verbatim>\<open>ToUpper\<close>: a string equal up to case to a name in
  capitals upper-cases to that name, and an ASCII string is equal up to case to its own
  upper-casing.
\<close>

lemma case_variant_upper:
  assumes "case_variant a b" and "(of_char b :: nat) < 128"
    and "\<not> ((97::nat) \<le> of_char b \<and> of_char b \<le> (122::nat))"
  shows "(of_char a :: nat) < 128 \<and> upper_byte a = b"
proof (cases "a = b")
  case True
  then show ?thesis using assms by (auto simp: upper_byte_def)
next
  case False
  then have b: "(65::nat) \<le> of_char b" "of_char b \<le> (90::nat)"
    and a: "(of_char a :: nat) = of_char b + 32"
    using assms(1) by (simp_all add: case_variant_def)
  have "char_of (of_char a - (32::nat)) = b" using a by simp
  then show ?thesis using a b by (simp add: upper_byte_def)
qed

lemma upper_byte_variant: "case_variant a (upper_byte a)"
proof (cases "(97::nat) \<le> of_char a \<and> of_char a \<le> (122::nat)")
  case True
  then have r: "(65::nat) \<le> of_char a - 32" "(of_char a :: nat) - 32 \<le> 90"
    "(of_char a :: nat) = of_char a - 32 + 32" "(of_char a :: nat) - 32 < 256"
    by arith+
  have "(of_char (char_of (of_char a - (32::nat))) :: nat) = of_char a - 32"
    using r(4) by simp
  then have "case_variant a (char_of (of_char a - (32::nat)))"
    unfolding case_variant_def using r(1,2,3) by presburger
  then show ?thesis using True by (simp add: upper_byte_def)
next
  case False
  then have "upper_byte a = a" by (auto simp: upper_byte_def)
  then show ?thesis by (simp add: case_variant_def)
qed

lemma equal_up_to_case_upper:
  assumes "equal_up_to_case s name" and "is_ascii name"
    and "list_all (\<lambda>b. \<not> ((97::nat) \<le> of_char b \<and> of_char b \<le> (122::nat))) name"
  shows "is_ascii s \<and> map upper_byte s = name"
  using assms unfolding equal_up_to_case_def is_ascii_def
proof (induction s name rule: list_all2_induct)
  case Nil
  then show ?case by simp
next
  case (Cons a s b name)
  then show ?case using case_variant_upper [of a b] by simp
qed

lemma upper_equal_up_to_case: "equal_up_to_case s (map upper_byte s)"
  by (induction s) (simp_all add: equal_up_to_case_def upper_byte_variant)

lemma capitals: "is_ascii FILESYSTEM" "is_ascii S3"
  "list_all (\<lambda>b. \<not> ((97::nat) \<le> of_char b \<and> of_char b \<le> (122::nat))) FILESYSTEM"
  "list_all (\<lambda>b. \<not> ((97::nat) \<le> of_char b \<and> of_char b \<le> (122::nat))) S3"
  by (simp_all add: is_ascii_def FILESYSTEM_def S3_def)

lemma matches_FILESYSTEM: "equal_up_to_case s FILESYSTEM \<Longrightarrow> ToUpper uni s = FILESYSTEM"
  using equal_up_to_case_upper [OF _ capitals(1) capitals(3)] by (simp add: ToUpper_def)

lemma matches_S3: "equal_up_to_case s S3 \<Longrightarrow> ToUpper uni s = S3"
  using equal_up_to_case_upper [OF _ capitals(2) capitals(4)] by (simp add: ToUpper_def)

lemma ascii_matches: "is_ascii s \<Longrightarrow> ToUpper uni s = name \<Longrightarrow> equal_up_to_case s name"
  using upper_equal_up_to_case [of s] by (auto simp: ToUpper_def)

lemma FILESYSTEM_neq_S3: "FILESYSTEM \<noteq> S3"
  by (simp add: FILESYSTEM_def S3_def)

text \<open>
  C9: \<^verbatim>\<open>setupBucket\<close> dispatches on the upper-cased storage name. A name that is
  equal to \<^verbatim>\<open>FILESYSTEM\<close> up to the case of its letters (or upper-cases to it) selects
  the filesystem configuration with the configured directory, one equal to \<^verbatim>\<open>S3\<close>
  the S3 configuration with the configured bucket, endpoint, keys, retries and
  insecure flag, and the result is what marshalling that configuration and creating the
  client give. An ASCII name gets the "unknown bucket type" error exactly when it is
  equal to neither name up to case. In terms of the upper-casing itself: a matching name
  gives the result its capital spelling gives, and the "unknown bucket type" error is
  returned exactly for the names whose upper-casing is neither provider.
\<close>

theorem setupBucket_case_insensitive:
  "(equal_up_to_case s FILESYSTEM \<or> ToUpper uni s = FILESYSTEM \<longrightarrow>
      setupBucket uni marshal newBucket (bo\<lparr>storage := s\<rparr>)
        = (case marshal \<lparr>cfg_Type = FILESYSTEM, cfg_Prefix = prefix bo,
                          cfg_Config = FilesystemCfg (filesystemDirectory bo)\<rparr> of
             Inl err \<Rightarrow> Inl (Wrapf ''unable to marshal bucket config yaml: '' err)
           | Inr bytes \<Rightarrow>
               (case newBucket bytes of
                  Inl err \<Rightarrow> Inl (Wrapf ''unable to create bucket client: '' err)
                | Inr bkt \<Rightarrow> Inr bkt)))
   \<and> (equal_up_to_case s S3 \<or> ToUpper uni s = S3 \<longrightarrow>
      setupBucket uni marshal newBucket (bo\<lparr>storage := s\<rparr>)
        = (case marshal \<lparr>cfg_Type = S3, cfg_Prefix = prefix bo,
                          cfg_Config = S3Cfg (s3Bucket bo) (s3Endpoint bo) (s3AccessKey bo)
                                         (s3SecretKey bo) (retries bo) (s3Insecure bo)\<rparr> of
             Inl err \<Rightarrow> Inl (Wrapf ''unable to marshal bucket config yaml: '' err)
           | Inr bytes \<Rightarrow>
               (case newBucket bytes of
                  Inl err \<Rightarrow> Inl (Wrapf ''unable to create bucket client: '' err)
                | Inr bkt \<Rightarrow> Inr bkt)))
   \<and> (is_ascii s \<longrightarrow>
        (setupBucket uni marshal newBucket (bo\<lparr>storage := s\<rparr>)
           = Inl (Errorf (''unknown bucket type: '' @ map upper_byte s))
         \<longleftrightarrow> \<not> equal_up_to_case s FILESYSTEM \<and> \<not> equal_up_to_case s S3))
   \<and> (ToUpper uni s = FILESYSTEM \<or> ToUpper uni s = S3 \<longrightarrow>
      setupBucket uni marshal newBucket (bo\<lparr>storage := s\<rparr>)
        = setupBucket uni marshal newBucket (bo\<lparr>storage := ToUpper uni s\<rparr>))
   \<and> (is_ascii s \<and> (map upper_byte s = FILESYSTEM \<or> map upper_byte s = S3) \<longrightarrow>
      setupBucket uni marshal newBucket (bo\<lparr>storage := s\<rparr>)
        = setupBucket uni marshal newBucket (bo\<lparr>storage := map upper_byte s\<rparr>))
   \<and> (setupBucket uni marshal newBucket (bo\<lparr>storage := s\<rparr>)
        = Inl (Errorf (''unknown bucket type: '' @ ToUpper uni s))
      \<longleftrightarrow> ToUpper uni s \<noteq> FILESYSTEM \<and> ToUpper uni s \<noteq> S3)"
proof (intro conjI impI)
  assume "equal_up_to_case s FILESYSTEM \<or> ToUpper uni s = FILESYSTEM"
  then have "ToUpper uni s = FILESYSTEM" using matches_FILESYSTEM by blast
  then show "setupBucket uni marshal newBucket (bo\<lparr>storage := s\<rparr>)
        = (case marshal \<lparr>cfg_Type = FILESYSTEM, cfg_Prefix = prefix bo,
                          cfg_Config = FilesystemCfg (filesystemDirectory bo)\<rparr> of
             Inl err \<Rightarrow> Inl (Wrapf ''unable to marshal bucket config yaml: '' err)
           | Inr bytes \<Rightarrow>
               (case newBucket bytes of
                  Inl err \<Rightarrow> Inl (Wrapf ''unable to create bucket client: '' err)
                | Inr bkt \<Rightarrow> Inr bkt))"
    by (simp add: setupBucket_def Let_def)
next
  assume "equal_up_to_case s S3 \<or> ToUpper uni s = S3"
  then have "ToUpper uni s = S3" using matches_S3 by blast
  then show "setupBucket uni marshal newBucket (bo\<lparr>storage := s\<rparr>)
        = (case marshal \<lparr>cfg_Type = S3, cfg_Prefix = prefix bo,
                          cfg_Config = S3Cfg (s3Bucket bo) (s3Endpoint bo) (s3AccessKey bo)
                                         (s3SecretKey bo) (retries bo) (s3Insecure bo)\<rparr> of
             Inl err \<Rightarrow> Inl (Wrapf ''unable to marshal bucket config yaml: '' err)
           | Inr bytes \<Rightarrow>
               (case newBucket bytes of
                  Inl err \<Rightarrow> Inl (Wrapf ''unable to create bucket client: '' err)
                | Inr bkt \<Rightarrow> Inr bkt))"
    using FILESYSTEM_neq_S3 by (simp add: setupBucket_def Let_def)
next
  assume a: "is_ascii s"
  then have up: "ToUpper uni s = map upper_byte s" by (simp add: ToUpper_def)
  have m: "equal_up_to_case s name \<longleftrightarrow> ToUpper uni s = name"
    if "name = FILESYSTEM \<or> name = S3" for name
    using that a matches_FILESYSTEM matches_S3 ascii_matches by blast
  show "setupBucket uni marshal newBucket (bo\<lparr>storage := s\<rparr>)
           = Inl (Errorf (''unknown bucket type: '' @ map upper_byte s))
         \<longleftrightarrow> \<not> equal_up_to_case s FILESYSTEM \<and> \<not> equal_up_to_case s S3"
    unfolding m [of FILESYSTEM, simplified] m [of S3, simplified] up [symmetric]
    by (auto simp: setupBucket_def Let_def split: sum.splits)
next
  assume "ToUpper uni s = FILESYSTEM \<or> ToUpper uni s = S3"
  then show "setupBucket uni marshal newBucket (bo\<lparr>storage := s\<rparr>)
        = setupBucket uni marshal newBucket (bo\<lparr>storage := ToUpper uni s\<rparr>)"
    by (auto simp: setupBucket_def Let_def ToUpper_FILESYSTEM ToUpper_S3)
next
  assume a: "is_ascii s \<and> (map upper_byte s = FILESYSTEM \<or> map upper_byte s = S3)"
  then have "ToUpper uni s = map upper_byte s" by (simp add: ToUpper_def)
  with a show "setupBucket uni marshal newBucket (bo\<lparr>storage := s\<rparr>)
        = setupBucket uni marshal newBucket (bo\<lparr>storage := map upper_byte s\<rparr>)"
    by (auto simp: setupBucket_def Let_def ToUpper_FILESYSTEM ToUpper_S3)
next
  show "setupBucket uni marshal newBucket (bo\<lparr>storage := s\<rparr>)
        = Inl (Errorf (''unknown bucket type: '' @ ToUpper uni s))
      \<longleftrightarrow> ToUpper uni s \<noteq> FILESYSTEM \<and> ToUpper uni s \<noteq> S3"
    by (auto simp: setupBucket_def Let_def split: sum.splits)
qed

text \<open>
  The names \<^verbatim>\<open>filesystem\<close> and \<^verbatim>\<open>FileSystem\<close> select the filesystem
  configuration, \<^verbatim>\<open>s3\<close> and \<^verbatim>\<open>S3\<close> the S3 configuration, and \<^verbatim>\<open>gcs\<close>,
  equal to neither, is refused.
\<close>

theorem setupBucket_case_insensitive_witness:
  "equal_up_to_case ''filesystem'' FILESYSTEM
   \<and> setupBucket id marshal_id newBucket_id (test_bucketOpts ''filesystem'')
     = Inr \<lparr>cfg_Type = ''FILESYSTEM'', cfg_Prefix = [], cfg_Config = FilesystemCfg ''/data''\<rparr>
   \<and> equal_up_to_case ''FileSystem'' FILESYSTEM
   \<and> setupBucket id marshal_id newBucket_id (test_bucketOpts ''FileSystem'')
     = setupBucket id marshal_id newBucket_id (test_bucketOpts ''filesystem'')
   \<and> equal_up_to_case ''s3'' S3
   \<and> setupBucket id marshal_id newBucket_id (test_bucketOpts ''s3'')
     = Inr \<lparr>cfg_Type = ''S3'', cfg_Prefix = [],
            cfg_Config = S3Cfg ''blocks'' ''localhost:9000'' [] [] 3 True\<rparr>
   \<and> setupBucket id marshal_id newBucket_id (test_bucketOpts ''s3'')
     = setupBucket id marshal_id newBucket_id (test_bucketOpts ''S3'')
   \<and> is_ascii ''gcs''
   \<and> \<not> equal_up_to_case ''gcs'' FILESYSTEM \<and> \<not> equal_up_to_case ''gcs'' S3
   \<and> setupBucket id marshal_id newBucket_id (test_bucketOpts ''gcs'')
     = Inl (Errorf ''unknown bucket type: GCS'')"
proof -
  have m: "equal_up_to_case ''filesystem'' FILESYSTEM" "equal_up_to_case ''FileSystem'' FILESYSTEM"
    "equal_up_to_case ''s3'' S3" "equal_up_to_case ''S3'' S3" "is_ascii ''gcs''"
    "\<not> equal_up_to_case ''gcs'' FILESYSTEM" "\<not> equal_up_to_case ''gcs'' S3"
    by code_simp+
  have g: "''unknown bucket type: '' @ map upper_byte ''gcs'' = ''unknown bucket type: GCS''"
    by code_simp
  have eq: "(test_bucketOpts ''x'')\<lparr>storage := t\<rparr> = test_bucketOpts t" for t
    by (simp add: test_bucketOpts_def)
  have sel: "prefix (test_bucketOpts ''x'') = []"
    "filesystemDirectory (test_bucketOpts ''x'') = ''/data''"
    "s3Bucket (test_bucketOpts ''x'') = ''blocks''"
    "s3Endpoint (test_bucketOpts ''x'') = ''localhost:9000''"
    "s3AccessKey (test_bucketOpts ''x'') = []" "s3SecretKey (test_bucketOpts ''x'') = []"
    "retries (test_bucketOpts ''x'') = 3" "s3Insecure (test_bucketOpts ''x'') = True"
    by (simp_all add: test_bucketOpts_def)
  note inst = setupBucket_case_insensitive [where uni = id and marshal = marshal_id
      and newBucket = newBucket_id and bo = "test_bucketOpts ''x''", unfolded eq sel]
  have fs: "setupBucket id marshal_id newBucket_id (test_bucketOpts ''filesystem'')
     = Inr \<lparr>cfg_Type = ''FILESYSTEM'', cfg_Prefix = [], cfg_Config = FilesystemCfg ''/data''\<rparr>"
    "setupBucket id marshal_id newBucket_id (test_bucketOpts ''FileSystem'')
     = Inr \<lparr>cfg_Type = ''FILESYSTEM'', cfg_Prefix = [], cfg_Config = FilesystemCfg ''/data''\<rparr>"
    using inst [of "''filesystem''", THEN conjunct1] inst [of "''FileSystem''", THEN conjunct1]
      m(1,2)
    by (simp_all add: marshal_id_def newBucket_id_def FILESYSTEM_def)
  have s3: "setupBucket id marshal_id newBucket_id (test_bucketOpts ''s3'')
     = Inr \<lparr>cfg_Type = ''S3'', cfg_Prefix = [],
            cfg_Config = S3Cfg ''blocks'' ''localhost:9000'' [] [] 3 True\<rparr>"
    "setupBucket id marshal_id newBucket_id (test_bucketOpts ''S3'')
     = Inr \<lparr>cfg_Type = ''S3'', cfg_Prefix = [],
            cfg_Config = S3Cfg ''blocks'' ''localhost:9000'' [] [] 3 True\<rparr>"
    using inst [of "''s3''", THEN conjunct2, THEN conjunct1]
      inst [of "''S3''", THEN conjunct2, THEN conjunct1] m(3,4)
    by (simp_all add: marshal_id_def newBucket_id_def S3_def)
  have "setupBucket id marshal_id newBucket_id (test_bucketOpts ''gcs'')
     = Inl (Errorf (''unknown bucket type: '' @ map upper_byte ''gcs''))"
    using inst [of "''gcs''", THEN conjunct2, THEN conjunct2, THEN conjunct1] m(5,6,7)
    by blast
  then have gcs: "setupBucket id marshal_id newBucket_id (test_bucketOpts ''gcs'')
     = Inl (Errorf ''unknown bucket type: GCS'')"
    by (simp only: g)
  show ?thesis
    using m fs s3 gcs by simp
qed

section \<open>Properties of the conversion\<close>

lemma concat_row_groups_of: "concat (row_groups_of n xs) = xs"
proof (induction n xs rule: row_groups_of.induct)
  case (1 n xs)
  show ?case
  proof (cases "xs = [] \<or> n = 0")
    case True
    then show ?thesis by (subst row_groups_of.simps) auto
  next
    case False
    then have "concat (row_groups_of n (drop n xs)) = drop n xs" using "1.IH" by simp
    with False show ?thesis by (subst row_groups_of.simps) simp
  qed
qed

lemma rows_of_row_groups: "sum_list (map length (row_groups_of n xs)) = length xs"
  using concat_row_groups_of [of n xs] by (metis length_concat)

lemma row_groups_of_map: "row_groups_of n (map f xs) = map (map f) (row_groups_of n xs)"
proof (induction n xs rule: row_groups_of.induct)
  case (1 n xs)
  show ?case
  proof (cases "xs = [] \<or> n = 0")
    case True
    then show ?thesis by (subst row_groups_of.simps, subst (2) row_groups_of.simps) auto
  next
    case False
    then have "row_groups_of n (map f (drop n xs)) = map (map f) (row_groups_of n (drop n xs))"
      using "1.IH" by simp
    with False show ?thesis
      by (subst row_groups_of.simps, subst (2) row_groups_of.simps) (simp add: take_map drop_map)
  qed
qed

lemma concat_take_ranges: "concat (take_ranges ks xs) = take (sum_list ks) xs"
proof (induction ks arbitrary: xs)
  case Nil
  then show ?case by simp
next
  case (Cons k ks)
  have "take k xs @ take (sum_list ks) (drop k xs) = take (k + sum_list ks) xs"
    by (simp add: take_add)
  with Cons show ?case by simp
qed

lemma length_take_ranges: "length (take_ranges ks xs) = length ks"
  by (induction ks arbitrary: xs) auto

lemma sum_shard_sizes: "0 < k \<Longrightarrow> sum_list (shard_sizes n k) = n"
proof -
  assume k: "0 < k"
  have "sum_list (shard_sizes n k) = (\<Sum>i = 0..<k. n div k + (if i < n mod k then 1 else 0))"
    by (simp add: shard_sizes_def interv_sum_list_conv_sum_set_nat)
  also have "\<dots> = k * (n div k) + (\<Sum>i = 0..<k. if i < n mod k then 1 else 0)"
    by (simp add: sum.distrib)
  also have "(\<Sum>i = 0..<k. if i < n mod k then 1 else 0 :: nat) = card {i \<in> {0..<k}. i < n mod k}"
    by (simp add: sum.If_cases Int_def)
  also have "{i \<in> {0..<k}. i < n mod k} = {0..<n mod k}"
    using k by (auto intro: less_trans [OF _ mod_less_divisor])
  finally show ?thesis by simp
qed

lemma concat_partition_shards: "0 < k \<Longrightarrow> concat (partition_shards k xs) = xs"
  by (simp add: partition_shards_def concat_take_ranges sum_shard_sizes)

lemma length_partition_shards: "length (partition_shards k xs) = k"
  by (simp add: partition_shards_def length_take_ranges shard_sizes_def)

lemma lf_NumRows_write: "lf_NumRows (write_label_file opts rows) = length rows"
proof -
  have "sum_list (map (\<lambda>rg. length (lrg_index (write_label_row_group t ns rg))) gs)
      = sum_list (map length gs)" for t ns and gs :: "(nat \<times> series) list list"
    by (induction gs) (simp_all add: write_label_row_group_def)
  then show ?thesis
    by (simp add: lf_NumRows_def write_label_file_def o_def rows_of_row_groups)
qed

lemma cf_NumRows_write: "cf_NumRows (write_chunk_file opts rows) = length rows"
  by (simp add: cf_NumRows_def write_chunk_file_def rows_of_row_groups)

lemma map_of_put: "map_of (put k v kvs) k' = (if k' = k then Some v else map_of kvs k')"
proof -
  have "k' \<noteq> k \<Longrightarrow> map_of (filter (\<lambda>kv. fst kv \<noteq> k) kvs) k' = map_of kvs k'"
    by (induction kvs) auto
  then show ?thesis by (simp add: put_def)
qed

lemma write_shards_metas:
  "bkt_metas (write_shards opts name i shards bkt) = bkt_metas bkt"
  by (induction shards arbitrary: i bkt) simp_all

lemma write_shards_labels:
  "map_of (bkt_labels (write_shards opts name i shards bkt)) (nm, j) =
     (if nm = name \<and> i \<le> j \<and> j < i + length shards
      then Some (write_label_file opts (sort_rows (sortBy opts) (shards ! (j - i))))
      else map_of (bkt_labels bkt) (nm, j))"
proof (induction shards arbitrary: i bkt)
  case Nil
  then show ?case by auto
next
  case (Cons rows rest)
  show ?case
    unfolding write_shards.simps Cons.IH
    by (auto simp: map_of_put nth_Cons')
qed

lemma write_shards_chunks:
  "map_of (bkt_chunks (write_shards opts name i shards bkt)) (nm, j) =
     (if nm = name \<and> i \<le> j \<and> j < i + length shards
      then Some (write_chunk_file opts (sort_rows (sortBy opts) (shards ! (j - i))))
      else map_of (bkt_chunks bkt) (nm, j))"
proof (induction shards arbitrary: i bkt)
  case Nil
  then show ?case by auto
next
  case (Cons rows rest)
  show ?case
    unfolding write_shards.simps Cons.IH
    by (auto simp: map_of_put nth_Cons')
qed

lemma count_rows_sum:
  assumes "\<And>i. i \<in> set shards \<Longrightarrow>
      \<exists>lf cf. map_of (bkt_labels bkt) (name, i) = Some lf
        \<and> map_of (bkt_chunks bkt) (name, i) = Some cf
        \<and> lf_NumRows lf = f i \<and> cf_NumRows cf = f i"
  shows "count_rows bkt name shards t = Inr (t + sum_list (map f shards))"
  using assms
proof (induction shards arbitrary: t)
  case Nil
  then show ?case by simp
next
  case (Cons i shards)
  obtain lf cf where "map_of (bkt_labels bkt) (name, i) = Some lf"
    "map_of (bkt_chunks bkt) (name, i) = Some cf" "lf_NumRows lf = f i" "cf_NumRows cf = f i"
    using Cons.prems [of i] by auto
  moreover have "count_rows bkt name shards (t + f i) = Inr (t + f i + sum_list (map f shards))"
    using Cons.IH [of "t + f i"] Cons.prems by simp
  ultimately show ?case by simp
qed

lemma count_rows_cong:
  assumes "\<And>i. i \<in> set shards \<Longrightarrow>
      map_of (bkt_labels b1) (name, i) = map_of (bkt_labels b2) (name, i)
      \<and> map_of (bkt_chunks b1) (name, i) = map_of (bkt_chunks b2) (name, i)"
  shows "count_rows b1 name shards t = count_rows b2 name shards t"
  using assms
proof (induction shards arbitrary: t)
  case Nil
  then show ?case by simp
next
  case (Cons i shards)
  have "map_of (bkt_labels b1) (name, i) = map_of (bkt_labels b2) (name, i)"
    "map_of (bkt_chunks b1) (name, i) = map_of (bkt_chunks b2) (name, i)"
    using Cons.prems [of i] by simp_all
  moreover have "count_rows b1 name shards t' = count_rows b2 name shards t'" for t'
    using Cons.IH Cons.prems by simp
  ultimately show ?case by (simp split: option.splits)
qed

lemma length_sort_rows: "length (sort_rows ks rows) = length rows"
  by (simp add: sort_rows_def)

lemma sum_nth_lengths: "sum_list (map (\<lambda>i. length (xss ! i)) [0..<length xss]) = length (concat xss)"
proof -
  have "map (\<lambda>i. length (xss ! i)) [0..<length xss] = map length xss"
    by (rule nth_equalityI) simp_all
  then show ?thesis by (simp add: length_concat)
qed

text \<open>What a successful conversion leaves in the bucket.\<close>

lemma Convert_Inr:
  assumes "ConvertTSDBBlock bkt d blocks opts = Inr bkt'"
  shows "bkt_labels bkt' = bkt_labels (write_shards opts (BlockNameForDay d) 0
            (partition_shards (shardCount opts)
               (sort_rows (sortBy opts) (enumerate_series d blocks))) bkt)"
    and "bkt_chunks bkt' = bkt_chunks (write_shards opts (BlockNameForDay d) 0
            (partition_shards (shardCount opts)
               (sort_rows (sortBy opts) (enumerate_series d blocks))) bkt)"
    and "bkt_metas bkt' = put (BlockNameForDay d)
           \<lparr>meta_name = BlockNameForDay d,
            meta_mint = least_time d (map chunk_mint (concat (map chunks
               (sort_rows (sortBy opts) (enumerate_series d blocks))))),
            meta_maxt = greatest_time d (map chunk_maxt (concat (map chunks
               (sort_rows (sortBy opts) (enumerate_series d blocks))))),
            meta_shards = shardCount opts\<rparr> (bkt_metas bkt)"
  using assms
  by (auto simp: ConvertTSDBBlock_def Let_def write_shards_metas split: if_splits)

lemma Convert_count_rows:
  assumes "ConvertTSDBBlock bkt d blocks opts = Inr bkt'"
  shows "count_rows bkt' (BlockNameForDay d) [0..<shardCount opts] 0
     = Inr (length (concat (partition_shards (shardCount opts)
               (sort_rows (sortBy opts) (enumerate_series d blocks)))))"
proof -
  let ?shards = "partition_shards (shardCount opts)
               (sort_rows (sortBy opts) (enumerate_series d blocks))"
  have "count_rows bkt' (BlockNameForDay d) [0..<shardCount opts] 0
      = Inr (0 + sum_list (map (\<lambda>i. length (?shards ! i)) [0..<shardCount opts]))"
    by (rule count_rows_sum)
      (simp add: Convert_Inr [OF assms] write_shards_labels write_shards_chunks
        length_partition_shards lf_NumRows_write cf_NumRows_write length_sort_rows)
  then show ?thesis
    using sum_nth_lengths [of ?shards] by (simp add: length_partition_shards)
qed

text \<open>
  C2: label and chunk file of a shard have the same number of rows, for every shard of
  every block of the catalog. The property is kept by every successful conversion: if it
  holds of the bucket before, it holds after, the converted block is in the catalog with
  the configured number of shards, and each of its shards has both files, equal in rows.
\<close>

theorem label_and_chunk_files_aligned:
  assumes "aligned bkt" and "ConvertTSDBBlock bkt d blocks opts = Inr bkt'"
  shows "aligned bkt'
    \<and> map_option meta_shards (map_of (Discoverer_Metas bkt') (BlockNameForDay d))
        = Some (shardCount opts)
    \<and> (\<forall>i < shardCount opts.
          \<exists>lf cf. map_of (bkt_labels bkt') (BlockNameForDay d, i) = Some lf
            \<and> map_of (bkt_chunks bkt') (BlockNameForDay d, i) = Some cf
            \<and> cf_NumRows cf = lf_NumRows lf)"
proof (intro conjI allI impI)
  let ?name = "BlockNameForDay d"
  note conv = Convert_Inr [OF assms(2)]
  have other: "count_rows bkt' nm shards t = count_rows bkt nm shards t"
    if "nm \<noteq> ?name" for nm shards t
    by (rule count_rows_cong) (simp add: conv write_shards_labels write_shards_chunks that)
  have old: "list_all (\<lambda>m. case count_rows bkt (fst m) [0..<meta_shards (snd m)] 0 of
              Inl err \<Rightarrow> False | Inr totalRows \<Rightarrow> True) (bkt_metas bkt)"
    using assms(1) by (simp add: aligned_def Discoverer_Metas_def)
  have "list_all (\<lambda>m. case count_rows bkt' (fst m) [0..<meta_shards (snd m)] 0 of
              Inl err \<Rightarrow> False | Inr totalRows \<Rightarrow> True)
          (filter (\<lambda>kv. fst kv \<noteq> ?name) (bkt_metas bkt))"
    using old by (auto simp: list_all_iff other)
  then show "aligned bkt'"
    by (simp add: aligned_def Discoverer_Metas_def conv(3) put_def
        Convert_count_rows [OF assms(2)])
  show "map_option meta_shards (map_of (Discoverer_Metas bkt') ?name) = Some (shardCount opts)"
    by (simp add: Discoverer_Metas_def conv(3) map_of_put)
  fix i
  assume "i < shardCount opts"
  then show "\<exists>lf cf. map_of (bkt_labels bkt') (?name, i) = Some lf
            \<and> map_of (bkt_chunks bkt') (?name, i) = Some cf
            \<and> cf_NumRows cf = lf_NumRows lf"
    by (simp add: conv write_shards_labels write_shards_chunks length_partition_shards
        lf_NumRows_write cf_NumRows_write)
qed

lemma insert_series_lbls:
  "map lbls (insert_series s acc) =
     (if lbls s \<in> set (map lbls acc) then map lbls acc else map lbls acc @ [lbls s])"
  by (induction acc) auto

lemma dedupe_fold_lbls:
  "distinct (map lbls acc) \<Longrightarrow>
   distinct (map lbls (foldl (\<lambda>acc s. insert_series s acc) acc ss))
   \<and> set (map lbls (foldl (\<lambda>acc s. insert_series s acc) acc ss))
       = set (map lbls acc) \<union> set (map lbls ss)"
proof (induction ss arbitrary: acc)
  case Nil
  then show ?case by simp
next
  case (Cons s ss)
  have "distinct (map lbls (insert_series s acc))"
    using Cons.prems by (simp add: insert_series_lbls)
  from Cons.IH [OF this] show ?case
    by (auto simp: insert_series_lbls)
qed

lemma length_dedupe: "length (dedupe ss) = card (lbls ` set ss)"
proof -
  have d: "distinct (map lbls (dedupe ss))" and s: "set (map lbls (dedupe ss)) = lbls ` set ss"
    using dedupe_fold_lbls [of "[]" ss] by (simp_all add: dedupe_def)
  have "length (dedupe ss) = length (map lbls (dedupe ss))" by simp
  also have "\<dots> = card (set (map lbls (dedupe ss)))" using d by (simp only: distinct_card)
  finally show ?thesis using s by simp
qed

text \<open>The rows of a conversion: one for each label set with data in the day.\<close>

lemma length_enumerate_series:
  "length (enumerate_series d blocks)
     = card (lbls ` {s \<in> set (concat (map blk_series blocks)). chunks_in_day d s \<noteq> []})"
proof -
  have "lbls ` (\<lambda>s. s\<lparr>chunks := chunks_in_day d s\<rparr>) ` A = lbls ` A" for A :: "series set"
    by (auto simp: image_iff)
  then show ?thesis
    by (simp add: enumerate_series_def length_dedupe del: set_concat)
qed

lemma itoa_nonempty: "itoa n \<noteq> []"
  by (subst itoa.simps) simp

lemma digit_inj: "a < 10 \<Longrightarrow> b < 10 \<Longrightarrow> digit a = digit b \<Longrightarrow> a = b"
  by (simp add: digit_def char_of_eq_iff take_bit_nat_eq_self)

lemma itoa_inj: "itoa n = itoa m \<Longrightarrow> n = m"
proof (induction n arbitrary: m rule: itoa.induct)
  case (1 n)
  show ?case
  proof (cases "n < 10")
    case True
    then have n: "itoa n = [digit n]" by (subst itoa.simps) simp
    show ?thesis
    proof (cases "m < 10")
      case m: True
      then have "itoa m = [digit m]" by (subst itoa.simps) simp
      with n "1.prems" True m show ?thesis by (simp add: digit_inj)
    next
      case False
      then have "itoa m = itoa (m div 10) @ [digit (m mod 10)]" by (subst itoa.simps) simp
      with n "1.prems" itoa_nonempty [of "m div 10"] show ?thesis by simp
    qed
  next
    case False
    then have n: "itoa n = itoa (n div 10) @ [digit (n mod 10)]" by (subst itoa.simps) simp
    show ?thesis
    proof (cases "m < 10")
      case True
      then have "itoa m = [digit m]" by (subst itoa.simps) simp
      with n "1.prems" itoa_nonempty [of "n div 10"] show ?thesis by simp
    next
      case m: False
      then have "itoa m = itoa (m div 10) @ [digit (m mod 10)]" by (subst itoa.simps) simp
      with n "1.prems" have "itoa (n div 10) = itoa (m div 10)"
        and "digit (n mod 10) = digit (m mod 10)" by simp_all
      then have "n div 10 = m div 10" and "n mod 10 = m mod 10"
        using "1.IH" [OF False] by (simp_all add: digit_inj)
      then show ?thesis by (metis div_mult_mod_eq)
    qed
  qed
qed

lemma test_labels_eq:
  "test_labels i = [(''__name__'', ''foo_'' @ itoa (i div 10)),
                    (''col_'' @ itoa (i div 100), itoa (2 * i))]"
  by (simp add: test_labels_def FromStrings_def)

lemma test_series_distinct: "distinct (map (lbls \<circ> test_series) [0..<n])"
proof -
  have "inj_on (lbls \<circ> test_series) (set [0..<n])"
    by (rule inj_onI) (auto simp: test_series_def test_labels_eq dest: itoa_inj)
  then show ?thesis by (simp add: distinct_map)
qed

lemma test_series_in_day: "list_all (\<lambda>s. chunks_in_day 0 s \<noteq> []) (map test_series [0..<n])"
  by (simp add: list_all_iff chunks_in_day_def test_series_def day_ms_def)

lemma Convert_succeeds:
  "list_all blk_readable blocks \<Longrightarrow> bkt_available bkt \<Longrightarrow>
   \<exists>bkt'. ConvertTSDBBlock bkt d blocks opts = Inr bkt'"
  by (simp add: ConvertTSDBBlock_def Let_def)

lemma Convert_total_rows:
  assumes "ConvertTSDBBlock bkt d blocks opts = Inr bkt'" and "0 < shardCount opts"
  shows "count_rows bkt' (BlockNameForDay d) [0..<shardCount opts] 0
     = Inr (card (lbls ` {s \<in> set (concat (map blk_series blocks)). chunks_in_day d s \<noteq> []}))"
  using Convert_count_rows [OF assms(1)] assms(2)
  by (simp add: concat_partition_shards length_sort_rows length_enumerate_series
      del: set_concat)

text \<open>
  C1: a readable source block of 1000 series with pairwise different label sets, all
  with data in the day, converted into an empty bucket with sort key \<^verbatim>\<open>__name__\<close>, 2
  shards, row groups of 250 rows and any label page buffer: the conversion succeeds, the
  catalog holds exactly one Meta, its shard count is 2, and the test's loop over the
  shards finds both files of each shard, equal in rows, and 1000 rows in all.
\<close>

theorem thousand_series_end_to_end:
  assumes "blk_readable blk"
    and "length (blk_series blk) = 1000"
    and "distinct (map lbls (blk_series blk))"
    and "list_all (\<lambda>s. chunks_in_day d s \<noteq> []) (blk_series blk)"
  shows "case ConvertTSDBBlock empty_bucket d [blk]
                \<lparr>sortBy = [''__name__''], rowGroupSize = 250, shardCount = 2,
                 labelPageBufferSize = thr\<rparr> of
           Inl err \<Rightarrow> False
         | Inr bkt \<Rightarrow>
             (case Discoverer_Metas bkt of
                [(name, meta)] \<Rightarrow>
                  meta_shards meta = 2
                  \<and> count_rows bkt name [0..<meta_shards meta] 0 = Inr 1000
              | _ \<Rightarrow> False)"
proof -
  let ?opts = "\<lparr>sortBy = [''__name__''], rowGroupSize = 250, shardCount = 2,
                 labelPageBufferSize = thr\<rparr>"
  obtain bkt where conv: "ConvertTSDBBlock empty_bucket d [blk] ?opts = Inr bkt"
    using Convert_succeeds [of "[blk]" empty_bucket d ?opts] assms(1)
    by (auto simp: empty_bucket_def)
  have "{s \<in> set (blk_series blk). chunks_in_day d s \<noteq> []} = set (blk_series blk)"
    using assms(4) by (auto simp: list_all_iff)
  moreover have "card (lbls ` set (blk_series blk)) = 1000"
    using assms(2,3) distinct_card [of "map lbls (blk_series blk)"] by simp
  ultimately have rows: "count_rows bkt (BlockNameForDay d) [0..<2] 0 = Inr 1000"
    using Convert_total_rows [OF conv] by simp
  have metas: "Discoverer_Metas bkt = [(BlockNameForDay d,
      \<lparr>meta_name = BlockNameForDay d,
       meta_mint = least_time d (map chunk_mint (concat (map chunks
          (sort_rows (sortBy ?opts) (enumerate_series d [blk]))))),
       meta_maxt = greatest_time d (map chunk_maxt (concat (map chunks
          (sort_rows (sortBy ?opts) (enumerate_series d [blk]))))),
       meta_shards = 2\<rparr>)]"
    using Convert_Inr(3) [OF conv] by (simp add: Discoverer_Metas_def put_def empty_bucket_def)
  show ?thesis
    using rows by (simp add: conv metas)
qed

text \<open>The head block of the test, its day and its options (a page buffer of 1 KiB).\<close>

theorem thousand_series_end_to_end_witness:
  "blk_readable test_head
   \<and> length (blk_series test_head) = 1000
   \<and> distinct (map lbls (blk_series test_head))
   \<and> list_all (\<lambda>s. chunks_in_day 0 s \<noteq> []) (blk_series test_head)
   \<and> (case ConvertTSDBBlock empty_bucket 0 [test_head] test_opts of
         Inl err \<Rightarrow> False
       | Inr bkt \<Rightarrow>
           (case Discoverer_Metas bkt of
              [(name, meta)] \<Rightarrow>
                meta_shards meta = 2
                \<and> count_rows bkt name [0..<meta_shards meta] 0 = Inr 1000
            | _ \<Rightarrow> False))"
proof -
  have h: "blk_readable test_head" "length (blk_series test_head) = 1000"
    "distinct (map lbls (blk_series test_head))"
    "list_all (\<lambda>s. chunks_in_day 0 s \<noteq> []) (blk_series test_head)"
    by (simp_all add: test_head_def test_series_distinct test_series_in_day)
  show ?thesis
    using h thousand_series_end_to_end [OF h, of 1024] by (simp add: test_opts_def)
qed

lemma row_key_mono:
  "row_key (k # ks) s \<le> row_key (k # ks) t \<Longrightarrow> label_value (lbls s) k \<le> label_value (lbls t) k"
  by (auto simp: row_key_def less_eq_prod_def)

lemma sort_rows_key_column:
  "sorted (map (\<lambda>s. label_value (lbls s) k) (sort_rows (k # ks) rows))"
proof -
  have "sorted (map (row_key (k # ks)) (sort_rows (k # ks) rows))"
    by (simp add: sort_rows_def)
  then show ?thesis
    by (auto simp: sorted_wrt_map intro: sorted_wrt_mono_rel [rotated] row_key_mono)
qed

lemma row_groups_of_sorted:
  "sorted (map h xs) \<Longrightarrow> g \<in> set (row_groups_of n xs) \<Longrightarrow> sorted (map h g)"
proof (induction n xs rule: row_groups_of.induct)
  case (1 n xs)
  show ?case
  proof (cases "xs = [] \<or> n = 0")
    case True
    have "row_groups_of n xs = (if xs = [] then [] else [xs])"
      using True by (subst row_groups_of.simps) auto
    then show ?thesis using "1.prems" by (auto split: if_splits)
  next
    case False
    then have "g = take n xs \<or> g \<in> set (row_groups_of n (drop n xs))"
      using "1.prems"(2) by (subst (asm) row_groups_of.simps) simp
    moreover have "sorted (map h (take n xs))" "sorted (map h (drop n xs))"
      using "1.prems"(1) by (simp_all add: sorted_wrt_take sorted_wrt_drop flip: take_map drop_map)
    ultimately show ?thesis using "1.IH" False by auto
  qed
qed

lemma concat_paginate: "concat (paginate thr buf vs) = buf @ vs"
  by (induction vs arbitrary: buf) auto

lemma paginate_nonempty: "[] \<notin> set (paginate thr buf vs)"
  by (induction vs arbitrary: buf) auto

lemma sorted_values_increasing: "sorted (map cell_bytes p) \<Longrightarrow> values_increasing p"
  by (induction p rule: values_increasing.induct) auto

lemma pages_increasing_ok:
  "(\<And>p. p \<in> set pages \<Longrightarrow> values_increasing p) \<Longrightarrow> pages_increasing pages = Inr ()"
  by (induction pages) auto

lemma sorted_concat_pick:
  "sorted (concat (map (map f) pages)) \<Longrightarrow> (\<And>p. p \<in> set pages \<Longrightarrow> g p \<in> f ` set p) \<Longrightarrow>
   sorted (map g pages)"
proof (induction pages)
  case Nil
  then show ?case by simp
next
  case (Cons p pages)
  have "g p \<le> g q" if "q \<in> set pages" for q
  proof -
    have "g p \<in> f ` set p" "g q \<in> f ` set q" using Cons.prems(2) that by simp_all
    then show ?thesis using Cons.prems(1) that by (auto simp: sorted_append)
  qed
  moreover have "sorted (map g pages)"
    using Cons.IH Cons.prems by (simp add: sorted_append)
  ultimately show ?case by simp
qed

lemma sorted_concat_part:
  "sorted (concat xss) \<Longrightarrow> xs \<in> set xss \<Longrightarrow> sorted xs"
  by (induction xss) (auto simp: sorted_append)

lemma fold_min_in: "fold min vs (v :: 'a :: linorder) \<in> set (v # vs)"
  by (induction vs arbitrary: v) (auto simp: min_def)

lemma fold_max_in: "fold max vs (v :: 'a :: linorder) \<in> set (v # vs)"
  by (induction vs arbitrary: v) (auto simp: max_def)

lemma map_filter_id_set: "set (List.map_filter id p) = {v. Some v \<in> set p}"
  by (force simp: List.map_filter_def image_iff)

lemma map_filter_id_Nil: "List.map_filter id p = [] \<Longrightarrow> c \<in> set p \<Longrightarrow> c = None"
  by (cases c) (auto simp: List.map_filter_def filter_empty_conv)

lemma page_min_in: "p \<noteq> [] \<Longrightarrow> page_min p \<in> cell_bytes ` set p"
proof (cases "List.map_filter id p")
  case Nil
  assume "p \<noteq> []"
  then obtain c where c: "c \<in> set p" by (cases p) auto
  then have "c = None" using Nil by (rule map_filter_id_Nil [rotated])
  with c Nil show ?thesis by (force simp: page_min_def cell_bytes_def)
next
  case (Cons v vs)
  have "fold min vs v \<in> set (List.map_filter id p)" using fold_min_in [of vs v] Cons by simp
  then have "Some (fold min vs v) \<in> set p" by (simp add: map_filter_id_set)
  then show ?thesis using Cons by (force simp: page_min_def cell_bytes_def)
qed

lemma page_max_in: "p \<noteq> [] \<Longrightarrow> page_max p \<in> cell_bytes ` set p"
proof (cases "List.map_filter id p")
  case Nil
  assume "p \<noteq> []"
  then obtain c where c: "c \<in> set p" by (cases p) auto
  then have "c = None" using Nil by (rule map_filter_id_Nil [rotated])
  with c Nil show ?thesis by (force simp: page_max_def cell_bytes_def)
next
  case (Cons v vs)
  have "fold max vs v \<in> set (List.map_filter id p)" using fold_max_in [of vs v] Cons by simp
  then have "Some (fold max vs v) \<in> set p" by (simp add: map_filter_id_set)
  then show ?thesis using Cons by (force simp: page_max_def cell_bytes_def)
qed

text \<open>The pages cut from a column whose values are in order.\<close>

lemma paginate_sorted:
  assumes "sorted (map cell_bytes vs)"
  shows "pages_increasing (paginate thr [] vs) = Inr ()"
    and "sorted (MinValues (ColumnIndex (paginate thr [] vs)))"
    and "sorted (MaxValues (ColumnIndex (paginate thr [] vs)))"
proof -
  let ?pages = "paginate thr [] vs"
  have all: "sorted (concat (map (map cell_bytes) ?pages))"
    using assms by (simp add: concat_paginate flip: map_concat)
  have ne: "p \<noteq> []" if "p \<in> set ?pages" for p
    using that paginate_nonempty [of thr "[]" vs] by auto
  have "sorted (map cell_bytes p)" if "p \<in> set ?pages" for p
    using sorted_concat_part [OF all, of "map cell_bytes p"] that by simp
  then show "pages_increasing ?pages = Inr ()"
    by (intro pages_increasing_ok sorted_values_increasing)
  show "sorted (MinValues (ColumnIndex ?pages))"
    using sorted_concat_pick [OF all, of page_min] by (simp add: ColumnIndex_def page_min_in ne)
  show "sorted (MaxValues (ColumnIndex ?pages))"
    using sorted_concat_pick [OF all, of page_max] by (simp add: ColumnIndex_def page_max_in ne)
qed

lemma cell_bytes_label: "cell_bytes (map_of ls k) = label_value ls k"
  by (simp add: cell_bytes_def label_value_def)

lemma map_of_columns:
  "map_of (map (\<lambda>c. (c, F c)) names) k = (if k \<in> set names then Some (F k) else None)"
  by (induction names) auto

lemma write_label_row_group_column:
  "k \<in> set names \<Longrightarrow>
   map_of (lrg_columns (write_label_row_group thr names g)) k
     = Some (paginate thr [] (map (\<lambda>r. map_of (lbls (snd r)) k) g))"
  by (simp add: write_label_row_group_def map_of_columns)

lemma row_groups_checks:
  assumes "k \<in> set names"
    and "\<And>g. g \<in> set gs \<Longrightarrow> sorted (map (\<lambda>r. label_value (lbls (snd r)) k) g)"
  shows "column_values_increasing k (map (write_label_row_group thr names) gs) = Inr ()
    \<and> page_bounds_ascending k (map (write_label_row_group thr names) gs) = Inr ()"
  using assms(2)
proof (induction gs)
  case Nil
  show ?case by simp
next
  case (Cons g gs)
  have s: "sorted (map cell_bytes (map (\<lambda>r. map_of (lbls (snd r)) k) g))"
    using Cons.prems [of g] by (simp add: cell_bytes_label o_def)
  have "column_values_increasing k (map (write_label_row_group thr names) gs) = Inr ()
    \<and> page_bounds_ascending k (map (write_label_row_group thr names) gs) = Inr ()"
    using Cons.IH Cons.prems by simp
  then show ?case
    using paginate_sorted [OF s, of thr]
    by (simp add: write_label_row_group_column [OF assms(1)] IsAscending_def Let_def)
qed

lemma map_snd_zip_upt: "map (\<lambda>r. f (snd r)) (zip [0..<length xs] xs) = map f xs"
proof -
  have "map (\<lambda>r. f (snd r)) (zip [0..<length xs] xs)
      = map f (map snd (zip [0..<length xs] xs))"
    by (simp only: map_map o_def)
  also have "map snd (zip [0..<length xs] xs) = xs"
    by (rule map_snd_zip) simp
  finally show ?thesis .
qed

lemma write_label_file_checks:
  assumes "k \<in> set (lf_schema (write_label_file opts (sort_rows (k # ks) rows)))"
  shows "nameColumnValuesAreIncreasing k (write_label_file opts (sort_rows (k # ks) rows)) = Inr ()"
    and "nameColumnPageBoundsAreAscending k (write_label_file opts (sort_rows (k # ks) rows))
           = Inr ()"
proof -
  let ?rows = "sort_rows (k # ks) rows"
  let ?h = "\<lambda>r :: nat \<times> series. label_value (lbls (snd r)) k"
  have k: "k \<in> set (label_names ?rows)" using assms by (simp add: write_label_file_def)
  have "sorted (map ?h (zip [0..<length ?rows] ?rows))"
    using sort_rows_key_column [of k ks rows]
    by (simp only: map_snd_zip_upt [where f = "\<lambda>s. label_value (lbls s) k"])
  then have g: "sorted (map ?h g)"
    if "g \<in> set (row_groups_of (rowGroupSize opts) (zip [0..<length ?rows] ?rows))" for g
    using that by (rule row_groups_of_sorted)
  show "nameColumnValuesAreIncreasing k (write_label_file opts ?rows) = Inr ()"
    using k row_groups_checks [OF k g]
    by (simp add: nameColumnValuesAreIncreasing_def write_label_file_def)
  show "nameColumnPageBoundsAreAscending k (write_label_file opts ?rows) = Inr ()"
    using k row_groups_checks [OF k g]
    by (simp add: nameColumnPageBoundsAreAscending_def write_label_file_def)
qed

text \<open>
  C3: in the label file of every shard of a converted block, for the first label of the
  sort key, if the file has its column: the values never go down within a page, in
  every row group (\<^verbatim>\<open>nameColumnValuesAreIncreasing\<close> passes), and where the column has
  more than one page in a row group the least and the greatest values of the pages
  never go down either (\<^verbatim>\<open>nameColumnPageBoundsAreAscending\<close> passes).
\<close>

theorem sort_key_column_monotone:
  assumes "ConvertTSDBBlock bkt d blocks opts = Inr bkt'"
    and "sortBy opts = k # ks"
    and "i < shardCount opts"
  shows "\<exists>lf. map_of (bkt_labels bkt') (BlockNameForDay d, i) = Some lf
           \<and> (k \<in> set (lf_schema lf) \<longrightarrow>
                nameColumnValuesAreIncreasing k lf = Inr ()
                \<and> nameColumnPageBoundsAreAscending k lf = Inr ())"
  using assms(3) write_label_file_checks [of k opts ks]
  by (simp add: Convert_Inr(1) [OF assms(1)] write_shards_labels length_partition_shards
      assms(2))

section \<open>Worked instances of the conversion\<close>

text \<open>
  The smaller block converted: 13 and 12 rows in the two shards; in shard 0 the name
  column has two pages in the first row group and one in the second.
\<close>

lemma small_eval:
  "case ConvertTSDBBlock empty_bucket 0 [small_head] small_opts of
     Inl err \<Rightarrow> False
   | Inr bkt \<Rightarrow>
       map (\<lambda>i. (map_option lf_NumRows (map_of (bkt_labels bkt) (BlockNameForDay 0, i)),
                 map_option cf_NumRows (map_of (bkt_chunks bkt) (BlockNameForDay 0, i))))
         [0, 1] = [(Some 13, Some 13), (Some 12, Some 12)]
       \<and> map_option
            (\<lambda>lf. (lf_schema lf,
                   map (\<lambda>rg. map_option (map length) (map_of (lrg_columns rg) ''__name__''))
                     (lf_row_groups lf)))
            (map_of (bkt_labels bkt) (BlockNameForDay 0, 0))
          = Some ([''__name__'', ''col_0''], [Some [5, 5], Some [3]])"
  by code_simp

text \<open>From the empty bucket, which is aligned, to the converted smaller block.\<close>

theorem label_and_chunk_files_aligned_witness:
  "aligned empty_bucket
   \<and> (case ConvertTSDBBlock empty_bucket 0 [small_head] small_opts of
         Inl err \<Rightarrow> False
       | Inr bkt \<Rightarrow>
           aligned bkt
           \<and> map_option meta_shards (map_of (Discoverer_Metas bkt) (BlockNameForDay 0)) = Some 2
           \<and> map (\<lambda>i. (map_option lf_NumRows (map_of (bkt_labels bkt) (BlockNameForDay 0, i)),
                        map_option cf_NumRows (map_of (bkt_chunks bkt) (BlockNameForDay 0, i))))
                [0, 1] = [(Some 13, Some 13), (Some 12, Some 12)])"
proof -
  have a: "aligned empty_bucket"
    by (simp add: aligned_def Discoverer_Metas_def empty_bucket_def)
  obtain bkt where conv: "ConvertTSDBBlock empty_bucket 0 [small_head] small_opts = Inr bkt"
    using Convert_succeeds [of "[small_head]" empty_bucket 0 small_opts]
    by (auto simp: small_head_def empty_bucket_def)
  have s: "shardCount small_opts = 2" by (simp add: small_opts_def)
  show ?thesis
    using a label_and_chunk_files_aligned [OF a conv] small_eval
    by (simp add: conv s)
qed

text \<open>Shard 0 of the smaller block: the name column is there and both checks pass.\<close>

theorem sort_key_column_monotone_witness:
  "sortBy small_opts = [''__name__''] \<and> 0 < shardCount small_opts
   \<and> (case ConvertTSDBBlock empty_bucket 0 [small_head] small_opts of
         Inl err \<Rightarrow> False
       | Inr bkt \<Rightarrow>
           (case map_of (bkt_labels bkt) (BlockNameForDay 0, 0) of
              None \<Rightarrow> False
            | Some lf \<Rightarrow>
                lf_schema lf = [''__name__'', ''col_0'']
                \<and> map (\<lambda>rg. map_option (map length) (map_of (lrg_columns rg) ''__name__''))
                     (lf_row_groups lf) = [Some [5, 5], Some [3]]
                \<and> nameColumnValuesAreIncreasing ''__name__'' lf = Inr ()
                \<and> nameColumnPageBoundsAreAscending ''__name__'' lf = Inr ()))"
proof -
  have o: "sortBy small_opts = [''__name__'']" "0 < shardCount small_opts"
    by (simp_all add: small_opts_def)
  obtain bkt where conv: "ConvertTSDBBlock empty_bucket 0 [small_head] small_opts = Inr bkt"
    using Convert_succeeds [of "[small_head]" empty_bucket 0 small_opts]
    by (auto simp: small_head_def empty_bucket_def)
  show ?thesis
    using o sort_key_column_monotone [OF conv o] small_eval
    by (auto simp: conv)
qed

section \<open>The accept-all meta filter\<close>

text \<open>
  C7: with the filter type \<^verbatim>\<open>all-metas\<close>, \<^verbatim>\<open>setupMetaFilter\<close> returns the accept-all
  filter without an error, calls nothing and registers nothing (group and world are as
  before), and that filter returns every set of Metas as it is, whatever the backfill
  pointer: it is the identity, keeps no state, and has no way to fail.
\<close>

theorem accept_all_filter_is_identity:
  "filterType so = ''all-metas'' \<Longrightarrow>
   (case fst (setupMetaFilter Update c g w so) of
      Inl err \<Rightarrow> False
    | Inr f \<Rightarrow> filterMetas f pointer ms = ms)
   \<and> snd (setupMetaFilter Update c g w so) = (g, w)"
  by (simp add: setupMetaFilter_def filterMetas_def)

text \<open>
  A catalog of two blocks passes the accept-all filter whole, while a backfill filter
  with pointer 0 would let neither through.
\<close>

theorem accept_all_filter_is_identity_witness:
  "filterType (test_syncerOpts ''all-metas'') = ''all-metas''
   \<and> setupMetaFilter always_fails (Caller 0) [] fresh_world (test_syncerOpts ''all-metas'')
       = (Inr AllMetasMetaFilter, [], fresh_world)
   \<and> filterMetas AllMetasMetaFilter 0 two_metas = two_metas
   \<and> filterMetas (ThanosBackfillMetaFilter [] 0) 0 two_metas = []"
proof -
  have h: "filterType (test_syncerOpts ''all-metas'') = ''all-metas''"
    by (simp add: test_syncerOpts_def)
  have r: "fst (setupMetaFilter always_fails (Caller 0) [] fresh_world
      (test_syncerOpts ''all-metas'')) = Inr AllMetasMetaFilter"
    by (simp add: setupMetaFilter_def test_syncerOpts_def)
  have b: "filterMetas (ThanosBackfillMetaFilter [] 0) 0 two_metas = []"
    by (simp add: filterMetas_def two_metas_def)
  show ?thesis
    using h b accept_all_filter_is_identity [OF h, where Update = always_fails
        and c = "Caller 0" and g = "[]" and w = fresh_world and pointer = 0 and ms = two_metas]
    by (simp add: r prod_eq_iff)
qed

end
